theory Spec2Isabelle
  imports Complex_Main
begin

section \<open>JavaScript values used by the users module\<close>

subsection \<open>Strings\<close>

text \<open>
  A \<^typ>\<open>string\<close> stands for a JavaScript string whose code units are ASCII; one
  \<^typ>\<open>char\<close> is one code unit, so \<^const>\<open>length\<close> is the \<^verbatim>\<open>.length\<close> of the source.
\<close>

definition toLowerCase_char :: "char \<Rightarrow> char" where
  "toLowerCase_char c =
     (let n = (of_char c :: nat) in if 65 \<le> n \<and> n \<le> 90 then char_of (n + 32) else c)"

definition toLowerCase :: "string \<Rightarrow> string" where
  "toLowerCase s = map toLowerCase_char s"

text \<open>The ASCII members of the white space and line terminator set removed by \<^verbatim>\<open>trim\<close>.\<close>

definition is_white_space :: "char \<Rightarrow> bool" where
  "is_white_space c = (let n = (of_char c :: nat) in (9 \<le> n \<and> n \<le> 13) \<or> n = 32)"

definition trim :: "string \<Rightarrow> string" where
  "trim s = rev (dropWhile is_white_space (rev (dropWhile is_white_space s)))"

text \<open>\<^verbatim>\<open>xs.join(sep)\<close> on an array of strings.\<close>

fun join :: "string \<Rightarrow> string list \<Rightarrow> string" where
  "join sep [] = []"
| "join sep [x] = x"
| "join sep (x # y # ys) = x @ sep @ join sep (y # ys)"

text \<open>\<^verbatim>\<open>s.includes(t)\<close>: \<open>t\<close> occurs in \<open>s\<close> as a contiguous substring.\<close>

fun starts_with :: "string \<Rightarrow> string \<Rightarrow> bool" where
  "starts_with s [] = True"
| "starts_with [] (c # t) = False"
| "starts_with (d # s) (c # t) = (d = c \<and> starts_with s t)"

fun includes_str :: "string \<Rightarrow> string \<Rightarrow> bool" where
  "includes_str [] t = (t = [])"
| "includes_str (c # s) t = (starts_with (c # s) t \<or> includes_str s t)"

text \<open>The decimal rendering of an array index, as \<^verbatim>\<open>join\<close> prints a numeric path segment.\<close>

definition digit_char :: "nat \<Rightarrow> char" where
  "digit_char d = char_of (48 + d)"

fun string_of_nat :: "nat \<Rightarrow> string" where
  "string_of_nat n =
     (if n < 10 then [digit_char n] else string_of_nat (n div 10) @ [digit_char (n mod 10)])"

subsection \<open>Numbers\<close>

text \<open>
  The numbers that reach the listing code are results of \<^verbatim>\<open>parseInt\<close>, of a row count and
  of arithmetic on those: \<^verbatim>\<open>NaN\<close>, the two infinities, or an integer. Integers are taken
  exactly (the double precision limit of \<open>2^53\<close> is not modelled), and the sign of zero,
  which no operation below observes, is dropped.
\<close>

datatype number = NaN | NegInf | Fin int | PosInf

fun truthy :: "number \<Rightarrow> bool" where
  "truthy NaN = False"
| "truthy (Fin n) = (n \<noteq> 0)"
| "truthy NegInf = True"
| "truthy PosInf = True"

text \<open>\<^verbatim>\<open>v || d\<close> for an optional number \<open>v\<close> (\<open>None\<close> is \<^verbatim>\<open>undefined\<close>).\<close>

fun or_default :: "number option \<Rightarrow> int \<Rightarrow> number" where
  "or_default None d = Fin d"
| "or_default (Some v) d = (if truthy v then v else Fin d)"

text \<open>\<^verbatim>\<open>a < b\<close>; every comparison with \<^verbatim>\<open>NaN\<close> is false.\<close>

fun js_less :: "number \<Rightarrow> number \<Rightarrow> bool" where
  "js_less NaN b = False"
| "js_less a NaN = False"
| "js_less PosInf b = False"
| "js_less a NegInf = False"
| "js_less NegInf b = True"
| "js_less a PosInf = True"
| "js_less (Fin a) (Fin b) = (a < b)"

definition Math_min :: "number \<Rightarrow> number \<Rightarrow> number" where
  "Math_min a b = (if a = NaN \<or> b = NaN then NaN else if js_less b a then b else a)"

definition Math_max :: "number \<Rightarrow> number \<Rightarrow> number" where
  "Math_max a b = (if a = NaN \<or> b = NaN then NaN else if js_less a b then b else a)"

text \<open>
  \<^verbatim>\<open>Math.ceil(n / b)\<close> for an integer numerator \<open>n\<close> (the row count). Division by zero
  gives an infinity, or \<^verbatim>\<open>NaN\<close> for \<open>0 / 0\<close>; division by an infinity gives zero.
\<close>

fun Math_ceil_div :: "int \<Rightarrow> number \<Rightarrow> number" where
  "Math_ceil_div n NaN = NaN"
| "Math_ceil_div n PosInf = Fin 0"
| "Math_ceil_div n NegInf = Fin 0"
| "Math_ceil_div n (Fin b) =
     (if b = 0 then (if n = 0 then NaN else if 0 < n then PosInf else NegInf)
      else Fin (- ((- n) div b)))"

text \<open>\<^verbatim>\<open>a - k\<close> for an integer constant \<open>k\<close>.\<close>

fun js_minus :: "number \<Rightarrow> int \<Rightarrow> number" where
  "js_minus (Fin a) k = Fin (a - k)"
| "js_minus a k = a"

text \<open>\<^verbatim>\<open>a * b\<close>; zero times an infinity is \<^verbatim>\<open>NaN\<close>.\<close>

fun js_times :: "number \<Rightarrow> number \<Rightarrow> number" where
  "js_times NaN b = NaN"
| "js_times a NaN = NaN"
| "js_times (Fin a) (Fin b) = Fin (a * b)"
| "js_times (Fin a) PosInf = (if a = 0 then NaN else if 0 < a then PosInf else NegInf)"
| "js_times (Fin a) NegInf = (if a = 0 then NaN else if 0 < a then NegInf else PosInf)"
| "js_times PosInf (Fin b) = (if b = 0 then NaN else if 0 < b then PosInf else NegInf)"
| "js_times NegInf (Fin b) = (if b = 0 then NaN else if 0 < b then NegInf else PosInf)"
| "js_times PosInf PosInf = PosInf"
| "js_times NegInf NegInf = PosInf"
| "js_times PosInf NegInf = NegInf"
| "js_times NegInf PosInf = NegInf"

definition is_finite :: "number \<Rightarrow> bool" where
  "is_finite a = (case a of Fin n \<Rightarrow> True | _ \<Rightarrow> False)"

subsection \<open>Request bodies\<close>

text \<open>
  A parsed JSON body, with \<^verbatim>\<open>undefined\<close> for a missing body or property. An object is its
  property table (keys distinct). The payload of a JSON number is never inspected by the
  module, so integers stand for all of them.
\<close>

datatype json =
    JUndefined
  | JNull
  | JBool bool
  | JNum int
  | JStr string
  | JArr "json list"
  | JObj "(string \<times> json) list"

text \<open>\<^verbatim>\<open>!v\<close>, \<^verbatim>\<open>typeof v === 'object'\<close> and \<^verbatim>\<open>Array.isArray(v)\<close>.\<close>

fun falsy :: "json \<Rightarrow> bool" where
  "falsy JUndefined = True"
| "falsy JNull = True"
| "falsy (JBool b) = (\<not> b)"
| "falsy (JNum n) = (n = 0)"
| "falsy (JStr s) = (s = [])"
| "falsy (JArr xs) = False"
| "falsy (JObj kvs) = False"

fun typeof_object :: "json \<Rightarrow> bool" where
  "typeof_object JNull = True"
| "typeof_object (JArr xs) = True"
| "typeof_object (JObj kvs) = True"
| "typeof_object v = False"

fun isArray :: "json \<Rightarrow> bool" where
  "isArray (JArr xs) = True"
| "isArray v = False"

text \<open>\<^verbatim>\<open>obj[key]\<close> on a property table.\<close>

definition get_prop :: "(string \<times> json) list \<Rightarrow> string \<Rightarrow> json" where
  "get_prop kvs k = (case map_of kvs k of Some v \<Rightarrow> v | None \<Rightarrow> JUndefined)"

subsection \<open>Users\<close>

text \<open>
  The data of a user as the schema outputs it and the service writes it (the date of birth
  is the time value of a \<^verbatim>\<open>Date\<close>, \<open>None\<close> for an invalid date), and a row of the table: the
  data with the identifier the store assigned. The table is the list of its rows in the
  order of their creation.
\<close>

record skill =
  field :: string
  tags :: "string list"

record user_data =
  name :: string
  ext :: string
  phone :: string
  email :: string
  dateOfBirth :: "int option"
  password :: string
  skills :: "skill list"

record user = user_data +
  user_id :: string

type_synonym store = "user list"

datatype store_error = UniqueConstraintFailed | RecordNotFound | InvalidArgument

subsection \<open>Library functions taken as parameters\<close>

text \<open>
  The module calls into the validation library, the JavaScript runtime and the persistence
  client. What these compute is not written in the repository, so they are parameters of the
  model: the format test behind \<^verbatim>\<open>z.email\<close>, \<^verbatim>\<open>Date.parse\<close> (\<open>None\<close> is \<^verbatim>\<open>NaN\<close>), the text of
  the library's default message for a value of the wrong type (from the expected type and the
  received value), \<^verbatim>\<open>parseInt\<close>, and what \<^verbatim>\<open>findMany\<close> answers, from the table, the skip and the
  take, when the take does not fit the client's 32-bit \<^verbatim>\<open>Int\<close>.
\<close>

record platform =
  email_format :: "string \<Rightarrow> bool"
  Date_parse :: "string \<Rightarrow> int option"
  invalid_type :: "string \<Rightarrow> json \<Rightarrow> string"
  parseInt :: "string \<Rightarrow> number"
  large_take :: "user list \<Rightarrow> int \<Rightarrow> int \<Rightarrow> store_error + user list"

section \<open>The schema: \<^verbatim>\<open>user.schema.ts\<close>\<close>

text \<open>
  A validation issue carries the path to the offending value and a message. A schema maps a
  value to the issues found or, when there are none, to the parsed output.
\<close>

datatype segment = Key string | Idx nat

record issue =
  path :: "segment list"
  issue_message :: string

type_synonym 'a parsed = "issue list + 'a"

definition issues_of :: "'a parsed \<Rightarrow> issue list" where
  "issues_of r = (case r of Inl is \<Rightarrow> is | Inr v \<Rightarrow> [])"

text \<open>
  Two parts of one value are both parsed, and the issues of the first come before those of
  the second.
\<close>

fun both :: "'a parsed \<Rightarrow> 'b parsed \<Rightarrow> ('a \<times> 'b) parsed" where
  "both (Inr a) (Inr b) = Inr (a, b)"
| "both ra rb = Inl (issues_of ra @ issues_of rb)"

text \<open>
  \<^verbatim>\<open>z.string()\<close> followed by checks and a final transformation: a value that is not a string
  is one issue and the checks do not run; otherwise every check runs on the string as
  received, and the transformation (\<^verbatim>\<open>trim\<close>, \<^verbatim>\<open>toLowerCase\<close>, \<^verbatim>\<open>transform\<close>) applies after them.
\<close>

definition z_string ::
  "string \<Rightarrow> (string \<Rightarrow> string list) \<Rightarrow> (string \<Rightarrow> 'a) \<Rightarrow> segment list \<Rightarrow> json \<Rightarrow> 'a parsed" where
  "z_string type_message checks out p v =
     (case v of
        JStr s \<Rightarrow>
          (case checks s of
             [] \<Rightarrow> Inr (out s)
           | m # ms \<Rightarrow> Inl (map (\<lambda>t. \<lparr>path = p, issue_message = t\<rparr>) (m # ms)))
      | _ \<Rightarrow> Inl [\<lparr>path = p, issue_message = type_message\<rparr>])"

definition min_length :: "nat \<Rightarrow> string \<Rightarrow> string \<Rightarrow> string list" where
  "min_length n m s = (if length s < n then [m] else [])"

definition max_length :: "nat \<Rightarrow> string \<Rightarrow> string \<Rightarrow> string list" where
  "max_length n m s = (if n < length s then [m] else [])"

definition refine :: "(string \<Rightarrow> bool) \<Rightarrow> string \<Rightarrow> string \<Rightarrow> string list" where
  "refine ok m s = (if ok s then [] else [m])"

text \<open>
  \<^verbatim>\<open>z.array(element)\<close>: the elements are parsed in order, each under its index; the issues
  of all elements are collected.
\<close>

fun elements :: "(segment list \<Rightarrow> json \<Rightarrow> 'a parsed) \<Rightarrow> segment list \<Rightarrow> nat \<Rightarrow> json list \<Rightarrow> 'a list parsed" where
  "elements el p i [] = Inr []"
| "elements el p i (x # xs) =
     (case both (el (p @ [Idx i]) x) (elements el p (Suc i) xs) of
        Inl is \<Rightarrow> Inl is
      | Inr (y, ys) \<Rightarrow> Inr (y # ys))"

text \<open>\<^verbatim>\<open>z.array(element).min(1, m)\<close>: the length check runs when the elements have no issue.\<close>

definition z_array_min1 ::
  "platform \<Rightarrow> (segment list \<Rightarrow> json \<Rightarrow> 'a parsed) \<Rightarrow> string \<Rightarrow> segment list \<Rightarrow> json \<Rightarrow> 'a list parsed" where
  "z_array_min1 pf el m p v =
     (case v of
        JArr xs \<Rightarrow>
          (case elements el p 0 xs of
             Inl is \<Rightarrow> Inl is
           | Inr ys \<Rightarrow> if length xs < 1 then Inl [\<lparr>path = p, issue_message = m\<rparr>] else Inr ys)
      | _ \<Rightarrow> Inl [\<lparr>path = p, issue_message = invalid_type pf ''array'' v\<rparr>])"

subsection \<open>The fields of \<^verbatim>\<open>CreateUserSchema\<close>\<close>

definition name_schema :: "platform \<Rightarrow> segment list \<Rightarrow> json \<Rightarrow> string parsed" where
  "name_schema pf p v =
     z_string (invalid_type pf ''string'' v)
       (\<lambda>s. min_length 2 ''Name must be at least 2 characters long'' s
          @ max_length 100 ''Name must be less than 100 characters'' s)
       trim p v"

definition ext_schema :: "platform \<Rightarrow> segment list \<Rightarrow> json \<Rightarrow> string parsed" where
  "ext_schema pf p v =
     z_string (invalid_type pf ''string'' v)
       (min_length 1 ''Phone country code is required'') trim p v"

definition phone_schema :: "platform \<Rightarrow> segment list \<Rightarrow> json \<Rightarrow> string parsed" where
  "phone_schema pf p v =
     z_string (invalid_type pf ''string'' v)
       (min_length 5 ''Phone number must be at least 5 characters long'') trim p v"

text \<open>
  \<^verbatim>\<open>z.email(m).trim().toLowerCase()\<close>: the message \<open>m\<close> is the schema's own, so it also
  reports a value that is not a string. The format is tested on the string as received;
  the output is trimmed, then lower-cased.
\<close>

definition email_schema :: "platform \<Rightarrow> segment list \<Rightarrow> json \<Rightarrow> string parsed" where
  "email_schema pf p v =
     z_string ''Please provide a valid email address''
       (refine (email_format pf) ''Please provide a valid email address'')
       (\<lambda>s. toLowerCase (trim s)) p v"

text \<open>
  The date of birth is the time value of \<^verbatim>\<open>new Date(val)\<close>, which for a string is
  \<^verbatim>\<open>Date.parse(val)\<close>; the refinement admits only strings where it is not \<^verbatim>\<open>NaN\<close>.
\<close>

definition dateOfBirth_schema :: "platform \<Rightarrow> segment list \<Rightarrow> json \<Rightarrow> int option parsed" where
  "dateOfBirth_schema pf p v =
     z_string (invalid_type pf ''string'' v)
       (refine (\<lambda>s. Date_parse pf s \<noteq> None) ''Date of birth must be a valid date'')
       (Date_parse pf) p v"

definition password_schema :: "platform \<Rightarrow> segment list \<Rightarrow> json \<Rightarrow> string parsed" where
  "password_schema pf p v =
     z_string (invalid_type pf ''string'' v)
       (\<lambda>s. min_length 6 ''Password must be at least 6 characters long'' s
          @ max_length 100 ''Password must be less than 100 characters'' s)
       (\<lambda>s. s) p v"

definition tag_schema :: "platform \<Rightarrow> segment list \<Rightarrow> json \<Rightarrow> string parsed" where
  "tag_schema pf p v =
     z_string (invalid_type pf ''string'' v)
       (min_length 3 ''Each skill tag must be at least 3 characters long'') trim p v"

definition skill_field_schema :: "platform \<Rightarrow> segment list \<Rightarrow> json \<Rightarrow> string parsed" where
  "skill_field_schema pf p v =
     z_string (invalid_type pf ''string'' v)
       (min_length 3 ''Skill field must be at least 3 characters long'') trim p v"

definition skill_schema :: "platform \<Rightarrow> segment list \<Rightarrow> json \<Rightarrow> skill parsed" where
  "skill_schema pf p v =
     (case v of
        JObj kvs \<Rightarrow>
          (case both (skill_field_schema pf (p @ [Key ''field'']) (get_prop kvs ''field''))
                  (z_array_min1 pf (tag_schema pf) ''At least one skill tag is required''
                     (p @ [Key ''tags'']) (get_prop kvs ''tags'')) of
             Inl is \<Rightarrow> Inl is
           | Inr (f, ts) \<Rightarrow> Inr \<lparr>field = f, tags = ts\<rparr>)
      | _ \<Rightarrow> Inl [\<lparr>path = p, issue_message = invalid_type pf ''object'' v\<rparr>])"

definition skills_schema :: "platform \<Rightarrow> segment list \<Rightarrow> json \<Rightarrow> skill list parsed" where
  "skills_schema pf p v =
     z_array_min1 pf (skill_schema pf) ''At least one skill is required'' p v"

subsection \<open>\<^verbatim>\<open>CreateUserSchema\<close> and \<^verbatim>\<open>UpdateUserSchema\<close>\<close>

text \<open>
  The object schema reads the seven keys of its shape, in the order of the shape, and drops
  every other key of the input. Its output is a \<^typ>\<open>user_data\<close>.
\<close>

definition CreateUserSchema_safeParse :: "platform \<Rightarrow> json \<Rightarrow> user_data parsed" where
  "CreateUserSchema_safeParse pf v =
     (case v of
        JObj kvs \<Rightarrow>
          (case both (name_schema pf [Key ''name''] (get_prop kvs ''name''))
                (both (ext_schema pf [Key ''ext''] (get_prop kvs ''ext''))
                (both (phone_schema pf [Key ''phone''] (get_prop kvs ''phone''))
                (both (email_schema pf [Key ''email''] (get_prop kvs ''email''))
                (both (dateOfBirth_schema pf [Key ''dateOfBirth''] (get_prop kvs ''dateOfBirth''))
                (both (password_schema pf [Key ''password''] (get_prop kvs ''password''))
                      (skills_schema pf [Key ''skills''] (get_prop kvs ''skills''))))))) of
             Inl is \<Rightarrow> Inl is
           | Inr (n, x, ph, e, d, pw, sk) \<Rightarrow>
               Inr \<lparr>name = n, ext = x, phone = ph, email = e, dateOfBirth = d,
                    password = pw, skills = sk\<rparr>)
      | _ \<Rightarrow> Inl [\<lparr>path = [], issue_message = invalid_type pf ''object'' v\<rparr>])"

text \<open>
  \<^verbatim>\<open>CreateUserSchema.partial()\<close> makes every field optional: a key that is missing stays
  missing in the output, a key that is present is parsed by the field's schema.
\<close>

definition z_optional ::
  "(segment list \<Rightarrow> json \<Rightarrow> 'a parsed) \<Rightarrow> segment list \<Rightarrow> json \<Rightarrow> 'a option parsed" where
  "z_optional sch p v =
     (case v of
        JUndefined \<Rightarrow> Inr None
      | _ \<Rightarrow> (case sch p v of Inl is \<Rightarrow> Inl is | Inr a \<Rightarrow> Inr (Some a)))"

record update_data =
  new_name :: "string option"
  new_ext :: "string option"
  new_phone :: "string option"
  new_email :: "string option"
  new_dateOfBirth :: "int option option"
  new_password :: "string option"
  new_skills :: "skill list option"

definition UpdateUserSchema_safeParse :: "platform \<Rightarrow> json \<Rightarrow> update_data parsed" where
  "UpdateUserSchema_safeParse pf v =
     (case v of
        JObj kvs \<Rightarrow>
          (case both (z_optional (name_schema pf) [Key ''name''] (get_prop kvs ''name''))
                (both (z_optional (ext_schema pf) [Key ''ext''] (get_prop kvs ''ext''))
                (both (z_optional (phone_schema pf) [Key ''phone''] (get_prop kvs ''phone''))
                (both (z_optional (email_schema pf) [Key ''email''] (get_prop kvs ''email''))
                (both (z_optional (dateOfBirth_schema pf) [Key ''dateOfBirth'']
                         (get_prop kvs ''dateOfBirth''))
                (both (z_optional (password_schema pf) [Key ''password''] (get_prop kvs ''password''))
                      (z_optional (skills_schema pf) [Key ''skills'']
                         (get_prop kvs ''skills''))))))) of
             Inl is \<Rightarrow> Inl is
           | Inr (n, x, ph, e, d, pw, sk) \<Rightarrow>
               Inr \<lparr>new_name = n, new_ext = x, new_phone = ph, new_email = e,
                    new_dateOfBirth = d, new_password = pw, new_skills = sk\<rparr>)
      | _ \<Rightarrow> Inl [\<lparr>path = [], issue_message = invalid_type pf ''object'' v\<rparr>])"

section \<open>The store\<close>

text \<open>
  The table of users behind the persistence client, as the list of its rows in the order
  of their creation (so the order by creation time, newest first, is the reversed list).
  A row is the created data and the identifier the store assigned. The operations are the
  client calls the service makes. The identifier is the table's key: the store refuses a
  row whose identifier is taken. The store of the model does not itself refuse a second
  row with the same email, so that what is proved about emails is proved of the service.
\<close>

definition count :: "store \<Rightarrow> nat" where
  "count st = length st"

definition findUnique_id :: "store \<Rightarrow> string \<Rightarrow> user option" where
  "findUnique_id st i = find (\<lambda>u. user_id u = i) st"

definition findUnique_email :: "store \<Rightarrow> string \<Rightarrow> user option" where
  "findUnique_email st e = find (\<lambda>u. email u = e) st"

text \<open>\<^verbatim>\<open>findFirst({ where: { email, NOT: { id } } })\<close>\<close>

definition findFirst_email_not_id :: "store \<Rightarrow> string \<Rightarrow> string \<Rightarrow> user option" where
  "findFirst_email_not_id st e i = find (\<lambda>u. email u = e \<and> user_id u \<noteq> i) st"

text \<open>
  \<^verbatim>\<open>create({ data })\<close>; the identifier generated for the new row is an input of the step.
\<close>

definition store_create :: "store \<Rightarrow> string \<Rightarrow> user_data \<Rightarrow> store_error + user \<times> store" where
  "store_create st new_id d =
     (if new_id \<in> set (map user_id st) then Inl UniqueConstraintFailed
      else
        (let u = \<lparr>name = name d, ext = ext d, phone = phone d, email = email d,
                   dateOfBirth = dateOfBirth d, password = password d, skills = skills d,
                   user_id = new_id\<rparr>
         in Inr (u, st @ [u])))"

text \<open>\<^verbatim>\<open>update({ where: { id }, data })\<close> writes the fields present in \<open>data\<close>.\<close>

definition apply_changes :: "update_data \<Rightarrow> user \<Rightarrow> user" where
  "apply_changes d u =
     u\<lparr>name := (case new_name d of Some v \<Rightarrow> v | None \<Rightarrow> name u),
       ext := (case new_ext d of Some v \<Rightarrow> v | None \<Rightarrow> ext u),
       phone := (case new_phone d of Some v \<Rightarrow> v | None \<Rightarrow> phone u),
       email := (case new_email d of Some v \<Rightarrow> v | None \<Rightarrow> email u),
       dateOfBirth := (case new_dateOfBirth d of Some v \<Rightarrow> v | None \<Rightarrow> dateOfBirth u),
       password := (case new_password d of Some v \<Rightarrow> v | None \<Rightarrow> password u),
       skills := (case new_skills d of Some v \<Rightarrow> v | None \<Rightarrow> skills u)\<rparr>"

definition store_update :: "store \<Rightarrow> string \<Rightarrow> update_data \<Rightarrow> store_error + user \<times> store" where
  "store_update st i d =
     (case find (\<lambda>u. user_id u = i) st of
        None \<Rightarrow> Inl RecordNotFound
      | Some u \<Rightarrow>
          Inr (apply_changes d u, map (\<lambda>v. if user_id v = i then apply_changes d v else v) st))"

text \<open>\<^verbatim>\<open>delete({ where: { id } })\<close> returns the deleted row.\<close>

definition store_delete :: "store \<Rightarrow> string \<Rightarrow> store_error + user \<times> store" where
  "store_delete st i =
     (case find (\<lambda>u. user_id u = i) st of
        None \<Rightarrow> Inl RecordNotFound
      | Some u \<Rightarrow> Inr (u, filter (\<lambda>v. user_id v \<noteq> i) st))"

text \<open>
  \<^verbatim>\<open>findMany({ skip, take, orderBy: { createdAt: 'desc' } })\<close>. A non-negative \<open>take\<close>
  counts from the start of the ordered rows after the skipped ones, a negative one from
  their end. The client accepts integers only, and no negative \<open>skip\<close>. It counts rows by a
  take that fits its 32-bit \<^verbatim>\<open>Int\<close>; a larger take is refused or served otherwise (one that
  does not fit 64 bits is refused), which is left to the parameter \<^const>\<open>large_take\<close>.
\<close>

definition findMany :: "platform \<Rightarrow> store \<Rightarrow> number \<Rightarrow> number \<Rightarrow> store_error + user list" where
  "findMany pf st skip tk =
     (case (skip, tk) of
        (Fin s, Fin t) \<Rightarrow>
          if s < 0 then Inl InvalidArgument
          else if 2 ^ 31 \<le> \<bar>t\<bar> then large_take pf st s t
          else if 0 \<le> t then Inr (take (nat t) (drop (nat s) (rev st)))
          else Inr (rev (take (nat (- t)) (drop (nat s) st)))
      | _ \<Rightarrow> Inl InvalidArgument)"

section \<open>The service: \<^verbatim>\<open>UsersService\<close>\<close>

text \<open>
  A \<^verbatim>\<open>BadRequestException\<close> is built from a message or from an object with a message and a
  list of field errors. An error of the persistence client is the other exception the
  service can meet. A call returns the exception thrown or the value returned, and the store
  after the call.
\<close>

record field_error =
  error_field :: string
  error_message :: string
  receivedValue :: "json option"

datatype response = Message string | Body string "field_error list"

datatype exn = BadRequestException response | ClientError store_error

text \<open>
  \<^verbatim>\<open>obj?.[key]\<close> along an issue's path. The paths of the schema enter objects by key and
  arrays by index. A numeric key of an object is the property of that decimal name, and a
  string has its characters under their indices. Primitive values, arrays and strings have
  none of the keys of the schema as a property, and \<^verbatim>\<open>?.\<close> on \<^verbatim>\<open>null\<close> or \<^verbatim>\<open>undefined\<close> is
  \<^verbatim>\<open>undefined\<close>.
\<close>

fun index :: "json \<Rightarrow> segment \<Rightarrow> json" where
  "index (JObj kvs) (Key k) = get_prop kvs k"
| "index (JObj kvs) (Idx i) = get_prop kvs (string_of_nat i)"
| "index (JArr xs) (Idx i) = (if i < length xs then xs ! i else JUndefined)"
| "index (JStr s) (Idx i) = (if i < length s then JStr [s ! i] else JUndefined)"
| "index v k = JUndefined"

fun segment_string :: "segment \<Rightarrow> string" where
  "segment_string (Key k) = k"
| "segment_string (Idx i) = string_of_nat i"

text \<open>The mapping of one issue in \<^verbatim>\<open>createUser\<close>.\<close>

definition format_error :: "json \<Rightarrow> issue \<Rightarrow> field_error" where
  "format_error userData err =
     (let field0 = join ''.'' (map segment_string (path err));
          field = (if field0 = [] then ''root'' else field0);
          message = issue_message err;
          message' =
            (if \<not> includes_str (toLowerCase message) (toLowerCase field) \<and> field \<noteq> ''root''
             then field @ '': '' @ message else message)
      in \<lparr>error_field = field, error_message = message',
          receivedValue = Some (foldl index userData (path err))\<rparr>)"

definition UsersService_createUser ::
  "platform \<Rightarrow> store \<Rightarrow> string \<Rightarrow> json \<Rightarrow> (exn + user) \<times> store" where
  "UsersService_createUser pf st new_id userData =
     (if falsy userData \<or> \<not> typeof_object userData \<or> isArray userData then
        (Inl (BadRequestException (Body ''Invalid request body''
           [\<lparr>error_field = ''body'',
             error_message = ''Request body must be a valid JSON object'',
             receivedValue = None\<rparr>])), st)
      else
        (case CreateUserSchema_safeParse pf userData of
           Inl issues \<Rightarrow>
             (Inl (BadRequestException (Body ''Validation failed''
                (map (format_error userData) issues))), st)
         | Inr result \<Rightarrow>
             (case findUnique_email st (email result) of
                Some existingUser \<Rightarrow>
                  (Inl (BadRequestException (Body ''User already exists''
                     [\<lparr>error_field = ''email'',
                       error_message = ''User with this email already exists'',
                       receivedValue = Some (JStr (email result))\<rparr>])), st)
              | None \<Rightarrow>
                  (case store_create st new_id result of
                     Inl error \<Rightarrow>
                       (Inl (BadRequestException (Body ''Failed to create user''
                          [\<lparr>error_field = ''server'',
                            error_message = ''Internal server error occurred while creating user'',
                            receivedValue = None\<rparr>])), st)
                   | Inr (newUser, st') \<Rightarrow> (Inr newUser, st')))))"

record PaginationQuery =
  page :: "number option"
  limit :: "number option"

record list_result =
  data :: "user list"
  totalUsers :: number
  totalPages :: number
  currentPage :: number
  page_limit :: number
  hasNext :: bool
  hasPrev :: bool

definition UsersService_getAllUsers ::
  "platform \<Rightarrow> store \<Rightarrow> PaginationQuery \<Rightarrow> exn + list_result" where
  "UsersService_getAllUsers pf st query =
     (let page = or_default (page query) 1;
          limit = or_default (limit query) 5;
          totalUsers = int (count st);
          totalPages = Math_ceil_div totalUsers limit;
          currentPage = Math_max (Fin 1) (Math_min page totalPages);
          offset = js_times (js_minus currentPage 1) limit
      in case findMany pf st offset limit of
           Inl error \<Rightarrow> Inl (ClientError error)
         | Inr rows \<Rightarrow>
             Inr \<lparr>data = rows, totalUsers = Fin totalUsers, totalPages = totalPages,
                  currentPage = currentPage, page_limit = limit,
                  hasNext = js_less currentPage totalPages,
                  hasPrev = js_less (Fin 1) currentPage\<rparr>)"

definition UsersService_getUserById :: "store \<Rightarrow> string \<Rightarrow> user option" where
  "UsersService_getUserById st i = findUnique_id st i"

text \<open>
  The controller tests the results of \<^verbatim>\<open>deleteUser\<close> and \<^verbatim>\<open>updateUser\<close> against \<^verbatim>\<open>null\<close>, so
  these return a user that may be \<^verbatim>\<open>null\<close> (\<open>None\<close>): the row the client call returned.
\<close>

definition UsersService_deleteUser :: "store \<Rightarrow> string \<Rightarrow> (exn + user option) \<times> store" where
  "UsersService_deleteUser st i =
     (case findUnique_id st i of
        None \<Rightarrow> (Inl (BadRequestException (Message (''User with id '' @ i @ '' not found''))), st)
      | Some u \<Rightarrow>
          (case store_delete st i of
             Inl error \<Rightarrow> (Inl (ClientError error), st)
           | Inr (deleted, st') \<Rightarrow> (Inr (Some deleted), st')))"

definition UsersService_updateUser ::
  "platform \<Rightarrow> store \<Rightarrow> string \<Rightarrow> json \<Rightarrow> (exn + user option) \<times> store" where
  "UsersService_updateUser pf st i userData =
     (if falsy userData \<or> \<not> typeof_object userData \<or> isArray userData then
        (Inl (BadRequestException (Message ''Invalid input: Expected an object'')), st)
      else
        (case UpdateUserSchema_safeParse pf userData of
           Inl issues \<Rightarrow>
             (Inl (BadRequestException (Message (''Validation failed: '' @
                join '', '' (map (\<lambda>error. join ''.'' (map segment_string (path error)) @ '': '' @
                                  issue_message error) issues)))), st)
         | Inr validatedData \<Rightarrow>
             (case findUnique_id st i of
                None \<Rightarrow>
                  (Inl (BadRequestException (Message (''User with id '' @ i @ '' not found''))), st)
              | Some existingUser \<Rightarrow>
                  (if (case new_email validatedData of
                         Some e \<Rightarrow> e \<noteq> [] \<and> findFirst_email_not_id st e i \<noteq> None
                       | None \<Rightarrow> False)
                   then (Inl (BadRequestException (Message ''Email already exists'')), st)
                   else
                     (case store_update st i validatedData of
                        Inl error \<Rightarrow> (Inl (ClientError error), st)
                      | Inr (updated, st') \<Rightarrow> (Inr (Some updated), st'))))))"

section \<open>The controller: \<^verbatim>\<open>UsersController\<close>\<close>

text \<open>
  A handler either returns a body, which the framework sends with the handler's status code
  (the code of \<^verbatim>\<open>@HttpCode\<close> for the create handler; 200 for the handlers of GET, DELETE and
  PATCH, which declare none), or lets an exception through to the framework.
\<close>

datatype 'a http = Response nat 'a | Raised exn

record envelope =
  success :: bool
  message :: string
  payload :: "user option"
  errors :: "field_error list option"

definition HttpStatus_CREATED :: nat where
  "HttpStatus_CREATED = 201"

definition HttpStatus_OK :: nat where
  "HttpStatus_OK = 200"

text \<open>
  \<^verbatim>\<open>error.getResponse()\<close>: the object the exception was built from, or an object whose
  \<^verbatim>\<open>message\<close> is the string it was built from (and which has no \<^verbatim>\<open>errors\<close>). Every message
  the service throws is non-empty, so \<^verbatim>\<open>response.message || error.message\<close> is
  \<^verbatim>\<open>response.message\<close>.
\<close>

fun response_message :: "response \<Rightarrow> string" where
  "response_message (Message m) = m"
| "response_message (Body m es) = m"

fun response_errors :: "response \<Rightarrow> field_error list" where
  "response_errors (Message m) = []"
| "response_errors (Body m es) = es"

definition UsersController_createUser ::
  "platform \<Rightarrow> store \<Rightarrow> string \<Rightarrow> json \<Rightarrow> envelope http \<times> store" where
  "UsersController_createUser pf st new_id createUserDto =
     (case UsersService_createUser pf st new_id createUserDto of
        (Inr u, st') \<Rightarrow>
          (Response HttpStatus_CREATED
             \<lparr>success = True, message = ''User created successfully'',
              payload = Some u, errors = None\<rparr>, st')
      | (Inl (BadRequestException r), st') \<Rightarrow>
          (Response HttpStatus_CREATED
             \<lparr>success = False, message = response_message r,
              payload = None, errors = Some (response_errors r)\<rparr>, st')
      | (Inl (ClientError e), st') \<Rightarrow>
          (Response HttpStatus_CREATED
             \<lparr>success = False, message = ''Internal server error'',
              payload = None,
              errors = Some [\<lparr>error_field = ''server'',
                error_message = ''An unexpected error occurred while creating the user'',
                receivedValue = None\<rparr>]\<rparr>, st'))"

text \<open>The query string of the listing: each parameter is absent or a string.\<close>

record query_string =
  page_param :: "string option"
  limit_param :: "string option"

text \<open>\<^verbatim>\<open>q ? parseInt(q) : undefined\<close>; the empty string is falsy.\<close>

definition parse_param :: "platform \<Rightarrow> string option \<Rightarrow> number option" where
  "parse_param pf q =
     (case q of None \<Rightarrow> None | Some s \<Rightarrow> if s = [] then None else Some (parseInt pf s))"

record paginated_response = list_result +
  list_success :: bool
  list_message :: string

definition UsersController_getAllUsers ::
  "platform \<Rightarrow> store \<Rightarrow> query_string \<Rightarrow> paginated_response http" where
  "UsersController_getAllUsers pf st query =
     (let paginationQuery =
            \<lparr>page = parse_param pf (page_param query),
             limit = parse_param pf (limit_param query)\<rparr>
      in case UsersService_getAllUsers pf st paginationQuery of
           Inl e \<Rightarrow> Raised e
         | Inr result \<Rightarrow>
             Response HttpStatus_OK
               \<lparr>data = data result, totalUsers = totalUsers result,
                totalPages = totalPages result, currentPage = currentPage result,
                page_limit = page_limit result, hasNext = hasNext result,
                hasPrev = hasPrev result,
                list_success = True, list_message = ''Users retrieved successfully''\<rparr>)"

definition UsersController_getUserById :: "store \<Rightarrow> string \<Rightarrow> envelope http" where
  "UsersController_getUserById st i =
     (case UsersService_getUserById st i of
        None \<Rightarrow>
          Response HttpStatus_OK
            \<lparr>success = False, message = ''User not found'', payload = None, errors = None\<rparr>
      | Some u \<Rightarrow>
          Response HttpStatus_OK
            \<lparr>success = True, message = ''User retrieved successfully'',
             payload = Some u, errors = None\<rparr>)"

definition UsersController_deleteUser :: "store \<Rightarrow> string \<Rightarrow> envelope http \<times> store" where
  "UsersController_deleteUser st i =
     (case UsersService_deleteUser st i of
        (Inl e, st') \<Rightarrow> (Raised e, st')
      | (Inr None, st') \<Rightarrow>
          (Response HttpStatus_OK
             \<lparr>success = False, message = ''User not found'', payload = None, errors = None\<rparr>,
           st')
      | (Inr (Some u), st') \<Rightarrow>
          (Response HttpStatus_OK
             \<lparr>success = True, message = ''User deleted successfully'',
              payload = Some u, errors = None\<rparr>, st'))"

definition UsersController_updateUser ::
  "platform \<Rightarrow> store \<Rightarrow> string \<Rightarrow> json \<Rightarrow> envelope http \<times> store" where
  "UsersController_updateUser pf st i userData =
     (case UsersService_updateUser pf st i userData of
        (Inl e, st') \<Rightarrow> (Raised e, st')
      | (Inr None, st') \<Rightarrow>
          (Response HttpStatus_OK
             \<lparr>success = False, message = ''User not found'', payload = None, errors = None\<rparr>,
           st')
      | (Inr (Some u), st') \<Rightarrow>
          (Response HttpStatus_OK
             \<lparr>success = True, message = ''User updated successfully'',
              payload = Some u, errors = None\<rparr>, st'))"

section \<open>Sequences of requests\<close>

text \<open>
  The write requests, executed one after the other on the store. A create request comes
  with the identifier the store generates for it.
\<close>

datatype request = Create string json | Update string json | Delete string

fun handle :: "platform \<Rightarrow> store \<Rightarrow> request \<Rightarrow> store" where
  "handle pf st (Create new_id body) = snd (UsersController_createUser pf st new_id body)"
| "handle pf st (Update i body) = snd (UsersController_updateUser pf st i body)"
| "handle pf st (Delete i) = snd (UsersController_deleteUser st i)"

definition run :: "platform \<Rightarrow> request list \<Rightarrow> store" where
  "run pf rs = foldl (handle pf) [] rs"

section \<open>Example values\<close>

text \<open>
  An instance of the parameters and a few requests, on which the model is evaluated:
  an email format that asks for an \<open>@\<close> and no white space, one date, and \<^verbatim>\<open>parseInt\<close> on
  strings of decimal digits, and a client that refuses a take that does not fit 64 bits and
  returns no rows for any other take beyond its \<^verbatim>\<open>Int\<close>.
\<close>

definition decimal_parseInt :: "string \<Rightarrow> number" where
  "decimal_parseInt s =
     (if s \<noteq> [] \<and> list_all (\<lambda>c. 48 \<le> (of_char c :: nat) \<and> (of_char c :: nat) \<le> 57) s
      then Fin (foldl (\<lambda>a c. 10 * a + int (of_char c) - 48) 0 s) else NaN)"

definition example_platform :: platform where
  "example_platform =
     \<lparr>email_format = (\<lambda>s. CHR ''@'' \<in> set s \<and> \<not> list_ex is_white_space s),
      Date_parse = (\<lambda>s. if s = ''2000-01-01'' then Some 946684800000 else None),
      invalid_type = (\<lambda>t v. ''Invalid input: expected '' @ t),
      parseInt = decimal_parseInt,
      large_take =
        (\<lambda>st s t. if t < - (2 ^ 63) \<or> 2 ^ 63 \<le> t then Inl InvalidArgument else Inr [])\<rparr>"

definition alice_body :: "string \<Rightarrow> json" where
  "alice_body e =
     JObj [(''name'', JStr ''Alice''), (''ext'', JStr ''+1''), (''phone'', JStr ''5550100''),
       (''email'', JStr e), (''dateOfBirth'', JStr ''2000-01-01''),
       (''password'', JStr ''secret1''),
       (''skills'', JArr [JObj [(''field'', JStr ''cooking''), (''tags'', JArr [JStr ''pasta''])]])]"

definition alice_row :: user where
  "alice_row =
     \<lparr>name = ''Alice'', ext = ''+1'', phone = ''5550100'', email = ''a@x.com'',
      dateOfBirth = Some 946684800000, password = ''secret1'',
      skills = [\<lparr>field = ''cooking'', tags = [''pasta'']\<rparr>], user_id = ''u1''\<rparr>"

definition bob_body :: json where
  "bob_body =
     JObj [(''name'', JStr ''Bob''), (''ext'', JStr ''+44''), (''phone'', JStr ''5550111''),
       (''email'', JStr ''Bob@X.com''), (''dateOfBirth'', JStr ''2000-01-01''),
       (''password'', JStr ''hunter22''),
       (''skills'', JArr [JObj [(''field'', JStr ''baking''), (''tags'', JArr [JStr ''bread''])]])]"

definition bob_row :: user where
  "bob_row =
     \<lparr>name = ''Bob'', ext = ''+44'', phone = ''5550111'', email = ''bob@x.com'',
      dateOfBirth = Some 946684800000, password = ''hunter22'',
      skills = [\<lparr>field = ''baking'', tags = [''bread'']\<rparr>], user_id = ''u2''\<rparr>"

definition example_requests :: "request list" where
  "example_requests =
     [Create ''u1'' (alice_body ''A@x.com''),
      Create ''u2'' (alice_body ''a@X.COM''),
      Create ''u2'' bob_body,
      Update ''u2'' (JObj [(''email'', JStr ''A@X.com'')]),
      Update ''u1'' (JObj [(''email'', JStr ''Alice@x.com'')]),
      Delete ''u9'']"

definition twelve_users :: store where
  "twelve_users = map (\<lambda>k. alice_row\<lparr>user_id := string_of_nat k\<rparr>) [0..<12]"

definition seven_users :: store where
  "seven_users = map (\<lambda>k. alice_row\<lparr>user_id := string_of_nat k\<rparr>) [0..<7]"

section \<open>Notions of the specification\<close>

text \<open>
  The page shown for a requested page \<open>p\<close> when there are \<open>tp\<close> pages, in the words of the
  specification: \<open>p\<close> clamped into \<open>[1, tp]\<close>, and page 1 when there is no page. The requested
  page is a number after the default, so it may be an infinity but not \<^verbatim>\<open>NaN\<close>.
\<close>

fun clamp_page :: "number \<Rightarrow> int \<Rightarrow> int" where
  "clamp_page (Fin p) tp = (if tp = 0 then 1 else if p < 1 then 1 else if tp < p then tp else p)"
| "clamp_page PosInf tp = (if tp = 0 then 1 else tp)"
| "clamp_page NegInf tp = 1"
| "clamp_page NaN tp = 1"

text \<open>
  A query parameter falls back to its default when it is absent or empty, or parsed to
  \<^verbatim>\<open>NaN\<close> or to 0. A limit parameter is within the client's \<^verbatim>\<open>Int\<close> when it falls back to the
  default or is parsed to an integer below \<open>2^31\<close> in magnitude.
\<close>

definition defaulted :: "platform \<Rightarrow> string option \<Rightarrow> bool" where
  "defaulted pf q =
     (case q of None \<Rightarrow> True | Some s \<Rightarrow> s = [] \<or> parseInt pf s = NaN \<or> parseInt pf s = Fin 0)"

definition within_Int :: "platform \<Rightarrow> string option \<Rightarrow> bool" where
  "within_Int pf q =
     (case q of
        None \<Rightarrow> True
      | Some s \<Rightarrow>
          s = [] \<or> (case parseInt pf s of NaN \<Rightarrow> True | Fin L \<Rightarrow> \<bar>L\<bar> < 2 ^ 31 | _ \<Rightarrow> False))"

text \<open>
  The store is well formed when no two rows have the same identifier, no two rows have the
  same email, and every email is in lower case.
\<close>

definition store_inv :: "store \<Rightarrow> bool" where
  "store_inv st \<longleftrightarrow>
     distinct (map user_id st) \<and> distinct (map email st)
     \<and> (\<forall>u\<in>set st. toLowerCase (email u) = email u)"

section \<open>Facts about strings\<close>

lemma of_char_lower: "of_char (toLowerCase_char c) = (let n = (of_char c :: nat) in if 65 \<le> n \<and> n \<le> 90 then n + 32 else n)"
  by (simp add: toLowerCase_char_def Let_def)

lemma ws_lower [simp]: "is_white_space (toLowerCase_char c) = is_white_space c"
  by (auto simp: is_white_space_def of_char_lower Let_def)

lemma lower_lower_char [simp]: "toLowerCase_char (toLowerCase_char c) = toLowerCase_char c"
proof (cases "65 \<le> (of_char c :: nat) \<and> (of_char c :: nat) \<le> 90")
  case True
  then have "\<not> (65 \<le> (of_char (toLowerCase_char c) :: nat) \<and> (of_char (toLowerCase_char c) :: nat) \<le> 90)"
    by (simp add: of_char_lower)
  then show ?thesis
    unfolding toLowerCase_char_def [of "toLowerCase_char c"] Let_def by auto
next
  case False
  then have "toLowerCase_char c = c"
    by (auto simp: toLowerCase_char_def Let_def)
  then show ?thesis by simp
qed

lemma toLowerCase_idem: "toLowerCase (toLowerCase s) = toLowerCase s"
  by (simp add: toLowerCase_def)

lemma dropWhile_ws_lower:
  "dropWhile is_white_space (map toLowerCase_char s) = map toLowerCase_char (dropWhile is_white_space s)"
  by (induction s) simp_all

lemma trim_toLowerCase: "trim (toLowerCase s) = toLowerCase (trim s)"
  by (simp add: trim_def toLowerCase_def dropWhile_ws_lower rev_map)

lemma trim_empty_iff: "trim s = [] \<longleftrightarrow> (\<forall>c\<in>set s. is_white_space c)"
proof
  assume "trim s = []"
  then have e: "dropWhile is_white_space (rev (dropWhile is_white_space s)) = []"
    by (simp add: trim_def)
  show "\<forall>c\<in>set s. is_white_space c"
  proof (cases "dropWhile is_white_space s")
    case Nil
    then show ?thesis by (simp add: dropWhile_eq_Nil_conv)
  next
    case (Cons c cs)
    then have "\<not> is_white_space c"
      using hd_dropWhile [of is_white_space s] by simp
    moreover have "is_white_space c"
      using e Cons by (simp add: dropWhile_eq_Nil_conv)
    ultimately show ?thesis by simp
  qed
next
  assume "\<forall>c\<in>set s. is_white_space c"
  then have d: "dropWhile is_white_space s = []" by (simp add: dropWhile_eq_Nil_conv)
  show "trim s = []" unfolding trim_def d by simp
qed

lemma toLowerCase_Nil_iff: "toLowerCase s = [] \<longleftrightarrow> s = []"
  by (simp add: toLowerCase_def)

section \<open>Facts about the schema\<close>

lemma both_Inr_iff: "both ra rb = Inr p \<longleftrightarrow> (\<exists>a b. ra = Inr a \<and> rb = Inr b \<and> p = (a, b))"
  by (cases ra; cases rb) auto

lemma z_string_Inr:
  "z_string tm checks out p v = Inr a \<Longrightarrow> \<exists>s. v = JStr s \<and> checks s = [] \<and> a = out s"
  by (auto simp: z_string_def split: json.splits list.splits)

lemma email_schema_Inr:
  "email_schema pf p v = Inr e \<Longrightarrow> \<exists>s. v = JStr s \<and> email_format pf s \<and> e = toLowerCase (trim s)"
  by (auto simp: email_schema_def refine_def dest!: z_string_Inr split: if_splits)

lemma email_schema_JStr:
  "email_schema pf p (JStr s) = Inr e \<longleftrightarrow> email_format pf s \<and> e = toLowerCase (trim s)"
  by (auto simp: email_schema_def refine_def z_string_def)

lemma CreateUserSchema_email:
  assumes "CreateUserSchema_safeParse pf v = Inr d"
  shows "\<exists>s. index v (Key ''email'') = JStr s \<and> email_format pf s \<and> email d = toLowerCase (trim s)"
proof -
  from assms obtain kvs where v: "v = JObj kvs"
    by (cases v) (simp_all add: CreateUserSchema_safeParse_def)
  from assms obtain e where "email_schema pf [Key ''email''] (get_prop kvs ''email'') = Inr e"
    and "email d = e"
    unfolding v CreateUserSchema_safeParse_def
    by (auto simp: both_Inr_iff split: sum.splits)
  with email_schema_Inr [of pf _ _ e] show ?thesis
    unfolding v by auto
qed

lemma z_optional_Inr:
  "z_optional sch p v = Inr r \<longleftrightarrow>
     (v = JUndefined \<and> r = None) \<or> (v \<noteq> JUndefined \<and> (\<exists>a. sch p v = Inr a \<and> r = Some a))"
  by (cases v) (auto simp: z_optional_def split: sum.splits)

lemma UpdateUserSchema_email:
  assumes "UpdateUserSchema_safeParse pf v = Inr d" and "new_email d = Some e"
  shows "\<exists>s. index v (Key ''email'') = JStr s \<and> email_format pf s \<and> e = toLowerCase (trim s)"
proof -
  from assms(1) obtain kvs where v: "v = JObj kvs"
    by (cases v) (simp_all add: UpdateUserSchema_safeParse_def)
  from assms(1) obtain r where
    "z_optional (email_schema pf) [Key ''email''] (get_prop kvs ''email'') = Inr r"
    and "new_email d = r"
    unfolding v UpdateUserSchema_safeParse_def
    by (auto simp: both_Inr_iff split: sum.splits)
  with assms(2) have "email_schema pf [Key ''email''] (get_prop kvs ''email'') = Inr e"
    by (auto simp: z_optional_Inr)
  with email_schema_Inr [of pf _ _ e] show ?thesis
    unfolding v by auto
qed

section \<open>The cases of the service calls\<close>

lemma safeParse_create_object:
  "CreateUserSchema_safeParse pf v = Inr d \<Longrightarrow> \<not> (falsy v \<or> \<not> typeof_object v \<or> isArray v)"
  by (cases v) (simp_all add: CreateUserSchema_safeParse_def)

lemma safeParse_update_object:
  "UpdateUserSchema_safeParse pf v = Inr d \<Longrightarrow> \<not> (falsy v \<or> \<not> typeof_object v \<or> isArray v)"
  by (cases v) (simp_all add: UpdateUserSchema_safeParse_def)

lemma createUser_cases:
  assumes "UsersService_createUser pf st nid body = (r, st')"
  shows "(st' = st \<and> isl r) \<or>
         (\<exists>d u. CreateUserSchema_safeParse pf body = Inr d \<and> findUnique_email st (email d) = None
            \<and> nid \<notin> set (map user_id st) \<and> r = Inr u \<and> st' = st @ [u]
            \<and> email u = email d \<and> user_id u = nid)"
  using assms
  by (auto simp: UsersService_createUser_def store_create_def Let_def
      split: if_splits sum.splits option.splits)

lemma updateUser_cases:
  assumes "UsersService_updateUser pf st i body = (r, st')"
  shows "(st' = st \<and> isl r) \<or>
         (\<exists>d u. UpdateUserSchema_safeParse pf body = Inr d \<and> findUnique_id st i = Some u
            \<and> (\<forall>e. new_email d = Some e \<longrightarrow> e \<noteq> [] \<longrightarrow> findFirst_email_not_id st e i = None)
            \<and> r = Inr (Some (apply_changes d u))
            \<and> st' = map (\<lambda>v. if user_id v = i then apply_changes d v else v) st)"
  using assms
  by (auto simp: UsersService_updateUser_def store_update_def findUnique_id_def
      split: if_splits sum.splits option.splits)

lemma deleteUser_cases:
  assumes "UsersService_deleteUser st i = (r, st')"
  shows "(st' = st \<and> isl r) \<or>
         (\<exists>u. findUnique_id st i = Some u \<and> r = Inr (Some u)
            \<and> st' = filter (\<lambda>v. user_id v \<noteq> i) st)"
  using assms
  by (auto simp: UsersService_deleteUser_def store_delete_def findUnique_id_def
      split: if_splits sum.splits option.splits)

lemma apply_changes_id [simp]: "user_id (apply_changes d u) = user_id u"
  by (simp add: apply_changes_def)

lemma apply_changes_email:
  "email (apply_changes d u) = (case new_email d of Some e \<Rightarrow> e | None \<Rightarrow> email u)"
  by (simp add: apply_changes_def)

section \<open>Deleting a user that does not exist\<close>

lemma find_id_None: "i \<notin> set (map user_id st) \<Longrightarrow> find (\<lambda>u. user_id u = i) st = None"
  by (auto simp: find_None_iff)

text \<open>
  Claim C7. For an identifier that no row of the store has, \<^verbatim>\<open>deleteUser\<close> throws the
  \<^verbatim>\<open>BadRequestException\<close> whose message is \<^verbatim>\<open>User with id <id> not found\<close>, the handler lets
  it through, and the store, hence the number of users, is as before.
\<close>

theorem deleteUser_absent:
  assumes "i \<notin> set (map user_id st)"
  shows "UsersService_deleteUser st i =
           (Inl (BadRequestException (Message (''User with id '' @ i @ '' not found''))), st)
         \<and> UsersController_deleteUser st i =
           (Raised (BadRequestException (Message (''User with id '' @ i @ '' not found''))), st)
         \<and> count (snd (UsersController_deleteUser st i)) = count st"
  using assms
  by (simp add: UsersService_deleteUser_def UsersController_deleteUser_def findUnique_id_def
      find_id_None)

theorem deleteUser_absent_witness:
  "''u9'' \<notin> set (map user_id [alice_row, bob_row])
   \<and> UsersController_deleteUser [alice_row, bob_row] ''u9'' =
       (Raised (BadRequestException (Message ''User with id u9 not found'')), [alice_row, bob_row])
   \<and> count (snd (UsersController_deleteUser [alice_row, bob_row] ''u9'')) = 2"
proof -
  have h: "''u9'' \<notin> set (map user_id [alice_row, bob_row])"
    by (simp add: alice_row_def bob_row_def)
  have c: "count [alice_row, bob_row] = 2"
    by (simp add: count_def)
  from deleteUser_absent [OF h] h c show ?thesis by simp
qed

section \<open>The paginated listing\<close>

lemma ceil_div_pos: "0 < L \<Longrightarrow> Math_ceil_div n (Fin L) = Fin \<lceil>real_of_int n / real_of_int L\<rceil>"
  by (simp add: ceiling_divide_eq_div)

lemma total_pages_nonneg:
  assumes "0 < L" "0 \<le> n" shows "0 \<le> \<lceil>real_of_int n / real_of_int L\<rceil>"
proof -
  have "0 \<le> real_of_int n / real_of_int L" using assms by simp
  then show ?thesis by (simp add: zero_le_ceiling)
qed

lemma or_default_not_NaN: "or_default v d \<noteq> NaN"
  by (cases v; cases "the v") auto

lemma clamp_js:
  "P \<noteq> NaN \<Longrightarrow> 0 \<le> tp \<Longrightarrow> Math_max (Fin 1) (Math_min P (Fin tp)) = Fin (clamp_page P tp)"
  by (cases P) (auto simp: Math_max_def Math_min_def)

lemma clamp_page_ge1: "0 \<le> tp \<Longrightarrow> 1 \<le> clamp_page P tp"
  by (cases P) auto

lemma clamp_page_le: "0 < tp \<Longrightarrow> clamp_page P tp \<le> tp"
  by (cases P) auto

lemma findMany_counted:
  assumes "0 \<le> s" and "0 < L" and "L < 2 ^ 31"
  shows "findMany pf st (Fin s) (Fin L) = Inr (take (nat L) (drop (nat s) (rev st)))"
proof -
  have "\<not> 2 ^ 31 \<le> \<bar>L\<bar>" using assms by simp
  then show ?thesis using assms by (simp add: findMany_def)
qed

lemma getAllUsers_pos:
  assumes l: "or_default (limit query) 5 = Fin L" and pos: "0 < L" and fits: "L < 2 ^ 31"
  shows "UsersService_getAllUsers pf st query =
     Inr \<lparr>data = take (nat L)
            (drop (nat ((clamp_page (or_default (page query) 1)
                           \<lceil>real (count st) / real_of_int L\<rceil> - 1) * L)) (rev st)),
          totalUsers = Fin (int (count st)),
          totalPages = Fin \<lceil>real (count st) / real_of_int L\<rceil>,
          currentPage =
            Fin (clamp_page (or_default (page query) 1) \<lceil>real (count st) / real_of_int L\<rceil>),
          page_limit = Fin L,
          hasNext = (clamp_page (or_default (page query) 1) \<lceil>real (count st) / real_of_int L\<rceil>
                       < \<lceil>real (count st) / real_of_int L\<rceil>),
          hasPrev = (1 < clamp_page (or_default (page query) 1)
                            \<lceil>real (count st) / real_of_int L\<rceil>)\<rparr>"
proof -
  let ?tp = "\<lceil>real (count st) / real_of_int L\<rceil>"
  let ?P = "or_default (page query) 1"
  have tp: "Math_ceil_div (int (count st)) (Fin L) = Fin ?tp"
    using ceil_div_pos [OF pos, of "int (count st)"] by simp
  have nonneg: "0 \<le> ?tp"
    using total_pages_nonneg [OF pos, of "int (count st)"] by simp
  have cp: "Math_max (Fin 1) (Math_min ?P (Fin ?tp)) = Fin (clamp_page ?P ?tp)"
    by (rule clamp_js [OF or_default_not_NaN nonneg])
  have one: "1 \<le> clamp_page ?P ?tp"
    by (rule clamp_page_ge1 [OF nonneg])
  have off: "0 \<le> (clamp_page ?P ?tp - 1) * L"
    using one pos by simp
  have fm: "findMany pf st (js_times (js_minus (Fin (clamp_page ?P ?tp)) 1) (Fin L)) (Fin L)
      = Inr (take (nat L) (drop (nat ((clamp_page ?P ?tp - 1) * L)) (rev st)))"
    using findMany_counted [OF off pos fits] by simp
  show ?thesis
    unfolding UsersService_getAllUsers_def Let_def l tp cp fm
    by simp
qed

text \<open>
  Claim C2, for a positive limit that fits the client's \<^verbatim>\<open>Int\<close>. Let \<open>L\<close> be the limit after
  the default 5, with \<open>0 < L < 2^31\<close>, and let \<open>p\<close> be the page after the default 1, an integer
  or an infinity. The listing returns; its \<open>totalPages\<close> is the ceiling of \<open>totalUsers / L\<close>; its
  \<open>currentPage\<close> is \<open>p\<close> clamped into \<open>[1, totalPages]\<close>, and 1 when there is no page; the rows
  are the \<open>L\<close> rows after the first \<open>(currentPage - 1) * L\<close> of the newest-first order, so at
  most \<open>L\<close>; \<open>hasNext\<close> is \<open>currentPage < totalPages\<close> and \<open>hasPrev\<close> is \<open>currentPage > 1\<close>. With
  12 users and limit 5, page 99 is answered as page 3.
\<close>

theorem getAllUsers_pagination:
  "(or_default (limit query) 5 = Fin L \<and> 0 < L \<and> L < 2 ^ 31 \<longrightarrow>
      (\<exists>r. UsersService_getAllUsers pf st query = Inr r
         \<and> totalUsers r = Fin (int (count st))
         \<and> totalPages r = Fin \<lceil>real (count st) / real_of_int L\<rceil>
         \<and> currentPage r =
             Fin (clamp_page (or_default (page query) 1) \<lceil>real (count st) / real_of_int L\<rceil>)
         \<and> page_limit r = Fin L
         \<and> data r = take (nat L)
               (drop (nat ((clamp_page (or_default (page query) 1)
                              \<lceil>real (count st) / real_of_int L\<rceil> - 1) * L)) (rev st))
         \<and> int (length (data r)) \<le> L
         \<and> hasNext r = (clamp_page (or_default (page query) 1) \<lceil>real (count st) / real_of_int L\<rceil>
                          < \<lceil>real (count st) / real_of_int L\<rceil>)
         \<and> hasPrev r = (1 < clamp_page (or_default (page query) 1)
                               \<lceil>real (count st) / real_of_int L\<rceil>)))
   \<and> (count st = 12 \<longrightarrow>
        UsersService_getAllUsers pf st \<lparr>page = Some (Fin 99), limit = Some (Fin 5)\<rparr> =
          Inr \<lparr>data = drop 10 (rev st), totalUsers = Fin 12, totalPages = Fin 3,
               currentPage = Fin 3, page_limit = Fin 5, hasNext = False, hasPrev = True\<rparr>
        \<and> UsersService_getAllUsers pf st \<lparr>page = Some (Fin 99), limit = Some (Fin 5)\<rparr> =
          UsersService_getAllUsers pf st \<lparr>page = Some (Fin 3), limit = Some (Fin 5)\<rparr>)"
proof (intro conjI impI)
  assume h: "or_default (limit query) 5 = Fin L \<and> 0 < L \<and> L < 2 ^ 31"
  then have l: "or_default (limit query) 5 = Fin L" and pos: "0 < L" and fits: "L < 2 ^ 31"
    by simp_all
  note eq = getAllUsers_pos [OF l pos fits, of pf st]
  show "\<exists>r. UsersService_getAllUsers pf st query = Inr r
         \<and> totalUsers r = Fin (int (count st))
         \<and> totalPages r = Fin \<lceil>real (count st) / real_of_int L\<rceil>
         \<and> currentPage r =
             Fin (clamp_page (or_default (page query) 1) \<lceil>real (count st) / real_of_int L\<rceil>)
         \<and> page_limit r = Fin L
         \<and> data r = take (nat L)
               (drop (nat ((clamp_page (or_default (page query) 1)
                              \<lceil>real (count st) / real_of_int L\<rceil> - 1) * L)) (rev st))
         \<and> int (length (data r)) \<le> L
         \<and> hasNext r = (clamp_page (or_default (page query) 1) \<lceil>real (count st) / real_of_int L\<rceil>
                          < \<lceil>real (count st) / real_of_int L\<rceil>)
         \<and> hasPrev r = (1 < clamp_page (or_default (page query) 1)
                               \<lceil>real (count st) / real_of_int L\<rceil>)"
    unfolding eq using pos by simp
next
  assume c: "count st = 12"
  have tp: "\<lceil>real (count st) / real_of_int 5\<rceil> = 3"
    unfolding c by (simp add: ceiling_divide_eq_div [of 12 5, simplified])
  have len: "length (rev st) = 12" using c by (simp add: count_def)
  have tk: "take 5 (drop 10 (rev st)) = drop 10 (rev st)"
    using len by simp
  have e99: "UsersService_getAllUsers pf st \<lparr>page = Some (Fin 99), limit = Some (Fin 5)\<rparr> =
          Inr \<lparr>data = drop 10 (rev st), totalUsers = Fin 12, totalPages = Fin 3,
               currentPage = Fin 3, page_limit = Fin 5, hasNext = False, hasPrev = True\<rparr>"
    using getAllUsers_pos [of "\<lparr>page = Some (Fin 99), limit = Some (Fin 5)\<rparr>" 5 pf st] tp tk c
    by simp
  have e3: "UsersService_getAllUsers pf st \<lparr>page = Some (Fin 3), limit = Some (Fin 5)\<rparr> =
          Inr \<lparr>data = drop 10 (rev st), totalUsers = Fin 12, totalPages = Fin 3,
               currentPage = Fin 3, page_limit = Fin 5, hasNext = False, hasPrev = True\<rparr>"
    using getAllUsers_pos [of "\<lparr>page = Some (Fin 3), limit = Some (Fin 5)\<rparr>" 5 pf st] tp tk c
    by simp
  show "UsersService_getAllUsers pf st \<lparr>page = Some (Fin 99), limit = Some (Fin 5)\<rparr> =
          Inr \<lparr>data = drop 10 (rev st), totalUsers = Fin 12, totalPages = Fin 3,
               currentPage = Fin 3, page_limit = Fin 5, hasNext = False, hasPrev = True\<rparr>"
    by (rule e99)
  show "UsersService_getAllUsers pf st \<lparr>page = Some (Fin 99), limit = Some (Fin 5)\<rparr> =
          UsersService_getAllUsers pf st \<lparr>page = Some (Fin 3), limit = Some (Fin 5)\<rparr>"
    unfolding e99 e3 by (rule refl)
qed

text \<open>
  With a negative limit the listing still answers: for limit \<open>-1\<close> and two users it reports
  \<open>-2\<close> pages, current page 1, and returns one row, which is more than the limit.
\<close>

theorem getAllUsers_negative_limit:
  "UsersService_getAllUsers example_platform [alice_row, bob_row]
       \<lparr>page = Some (Fin 1), limit = Some (Fin (- 1))\<rparr> =
     Inr \<lparr>data = [alice_row], totalUsers = Fin 2, totalPages = Fin (- 2), currentPage = Fin 1,
          page_limit = Fin (- 1), hasNext = False, hasPrev = False\<rparr>
   \<and> \<not> int (length [alice_row]) \<le> - 1 \<and> \<not> (1::int) \<le> - 2"
  by (simp add: UsersService_getAllUsers_def Math_max_def Math_min_def findMany_def count_def)

theorem getAllUsers_pagination_witness:
  "or_default (limit \<lparr>page = Some PosInf, limit = None\<rparr>) 5 = Fin 5 \<and> (0::int) < 5
   \<and> (5::int) < 2 ^ 31
   \<and> count twelve_users = 12
   \<and> UsersService_getAllUsers example_platform twelve_users \<lparr>page = Some PosInf, limit = None\<rparr> =
       Inr \<lparr>data = drop 10 (rev twelve_users), totalUsers = Fin 12, totalPages = Fin 3,
            currentPage = Fin 3, page_limit = Fin 5, hasNext = False, hasPrev = True\<rparr>
   \<and> UsersService_getAllUsers example_platform twelve_users
         \<lparr>page = Some (Fin 99), limit = Some (Fin 5)\<rparr> =
       UsersService_getAllUsers example_platform twelve_users
         \<lparr>page = Some (Fin 3), limit = Some (Fin 5)\<rparr>
   \<and> length (drop 10 (rev twelve_users)) = 2"
proof -
  have c: "count twelve_users = 12"
    by (simp add: count_def twelve_users_def)
  have t: "\<lceil>real (count twelve_users) / real_of_int 5\<rceil> = 3"
    unfolding c by (simp add: ceiling_divide_eq_div [of 12 5, simplified])
  have k: "take 5 (drop 10 (rev twelve_users)) = drop 10 (rev twelve_users)"
    using c by (simp add: count_def)
  have n: "length (drop 10 (rev twelve_users)) = 2"
    using c by (simp add: count_def)
  from getAllUsers_pagination [of "\<lparr>page = Some PosInf, limit = None\<rparr>" 5 example_platform
      twelve_users]
  show ?thesis using c t k n by auto
qed


lemma or_default_defaulted: "defaulted pf q \<Longrightarrow> or_default (parse_param pf q) d = Fin d"
  by (auto simp: defaulted_def parse_param_def split: option.splits)

lemma or_default_nonzero: "d \<noteq> 0 \<Longrightarrow> or_default v d \<noteq> Fin 0"
  by (cases v; cases "the v") auto

lemma or_default_within:
  "within_Int pf q \<Longrightarrow> \<bar>d\<bar> < 2 ^ 31 \<Longrightarrow> d \<noteq> 0 \<Longrightarrow>
   \<exists>L. L \<noteq> 0 \<and> \<bar>L\<bar> < 2 ^ 31 \<and> or_default (parse_param pf q) d = Fin L"
  by (cases q; cases "parseInt pf (the q)")
     (auto simp: within_Int_def parse_param_def)

lemma clamp_one: "0 \<le> tp \<Longrightarrow> clamp_page (Fin 1) tp = 1"
  by auto

lemma total_pages_neg_limit:
  assumes "L < 0" "0 \<le> n" shows "- ((- n) div L) \<le> (0::int)"
proof -
  have "0 \<le> (- n) div L" using assms by (auto simp add: div_int_pos_iff)
  then show ?thesis by simp
qed

lemma clamp_nonpos:
  "P \<noteq> NaN \<Longrightarrow> tp \<le> 0 \<Longrightarrow> Math_max (Fin 1) (Math_min P (Fin tp)) = Fin 1"
  by (cases P) (auto simp: Math_max_def Math_min_def)

lemma clamp_finite:
  "P \<noteq> NaN \<Longrightarrow> is_finite (Math_max (Fin 1) (Math_min P (Fin tp)))"
  by (cases P) (auto simp: Math_max_def Math_min_def is_finite_def)

lemma getAllUsers_returns:
  assumes l: "or_default (limit query) 5 = Fin L" and nz: "L \<noteq> 0" and fits: "\<bar>L\<bar> < 2 ^ 31"
  shows "\<exists>r. UsersService_getAllUsers pf st query = Inr r"
proof (cases "0 < L")
  case True
  with fits have "L < 2 ^ 31" by simp
  from getAllUsers_pos [OF l True this] show ?thesis by blast
next
  case False
  with nz have neg: "L < 0" by simp
  let ?tp = "- ((- int (count st)) div L)"
  have tp: "Math_ceil_div (int (count st)) (Fin L) = Fin ?tp"
    using nz by simp
  have "?tp \<le> 0"
    by (rule total_pages_neg_limit [OF neg]) simp
  then have cp: "Math_max (Fin 1) (Math_min (or_default (page query) 1) (Fin ?tp)) = Fin 1"
    by (rule clamp_nonpos [OF or_default_not_NaN])
  have small: "\<not> 2 ^ 31 \<le> \<bar>L\<bar>" using fits by simp
  have fm: "findMany pf st (js_times (js_minus (Fin 1) 1) (Fin L)) (Fin L)
      = Inr (rev (take (nat (- L)) st))"
    using neg small by (simp add: findMany_def)
  show ?thesis
    unfolding UsersService_getAllUsers_def Let_def l tp cp fm
    by simp
qed

lemma findMany_Inr: "findMany pf st a b = Inr rows \<Longrightarrow> \<exists>s t. a = Fin s \<and> b = Fin t"
  by (cases a; cases b) (simp_all add: findMany_def)

lemma service_fields:
  assumes "UsersService_getAllUsers pf st query = Inr r"
  shows "page_limit r \<noteq> Fin 0 \<and> page_limit r \<noteq> NaN \<and> is_finite (totalUsers r)
         \<and> is_finite (totalPages r) \<and> is_finite (currentPage r) \<and> is_finite (page_limit r)"
proof -
  let ?l = "or_default (limit query) 5"
  let ?P = "or_default (page query) 1"
  let ?tp = "Math_ceil_div (int (count st)) ?l"
  let ?cp = "Math_max (Fin 1) (Math_min ?P ?tp)"
  from assms obtain rows where fm: "findMany pf st (js_times (js_minus ?cp 1) ?l) ?l = Inr rows"
    and r: "r = \<lparr>data = rows, totalUsers = Fin (int (count st)), totalPages = ?tp,
                  currentPage = ?cp, page_limit = ?l,
                  hasNext = js_less ?cp ?tp, hasPrev = js_less (Fin 1) ?cp\<rparr>"
    by (auto simp: UsersService_getAllUsers_def Let_def split: sum.splits)
  from findMany_Inr [OF fm] obtain L where l: "?l = Fin L" by blast
  have nz: "L \<noteq> 0" using or_default_nonzero [of 5 "limit query"] l by simp
  have tp: "?tp = Fin (- ((- int (count st)) div L))"
    unfolding l using nz by simp
  have cp: "is_finite ?cp"
    unfolding tp by (rule clamp_finite [OF or_default_not_NaN])
  show ?thesis
    unfolding r using l nz tp cp by (simp add: is_finite_def)
qed

lemma controller_of_service:
  "UsersService_getAllUsers pf st
      \<lparr>page = parse_param pf (page_param q), limit = parse_param pf (limit_param q)\<rparr> = Inr r \<Longrightarrow>
   UsersController_getAllUsers pf st q =
     Response HttpStatus_OK
       \<lparr>data = data r, totalUsers = totalUsers r, totalPages = totalPages r,
        currentPage = currentPage r, page_limit = page_limit r, hasNext = hasNext r,
        hasPrev = hasPrev r, list_success = True,
        list_message = ''Users retrieved successfully''\<rparr>"
  by (simp add: UsersController_getAllUsers_def)

lemma controller_response:
  "UsersController_getAllUsers pf st q = Response c r \<Longrightarrow>
   \<exists>r'. UsersService_getAllUsers pf st
          \<lparr>page = parse_param pf (page_param q), limit = parse_param pf (limit_param q)\<rparr> = Inr r'
        \<and> page_limit r = page_limit r' \<and> totalUsers r = totalUsers r'
        \<and> totalPages r = totalPages r' \<and> currentPage r = currentPage r'"
  by (auto simp: UsersController_getAllUsers_def Let_def split: sum.splits)

text \<open>
  Claim C10. A limit parameter that is absent, empty, or parsed to \<^verbatim>\<open>NaN\<close> or 0 is listed
  with limit 5: the response has \<open>limit\<close> 5, the ceiling of \<open>totalUsers / 5\<close> as \<open>totalPages\<close>, and
  the five rows of the current page. Such a page parameter is listed as page 1: with a
  positive limit \<open>L\<close> that fits the client's \<^verbatim>\<open>Int\<close>, the response has \<open>currentPage\<close> 1 and the
  first \<open>L\<close> rows. With both parameters so, the response is page 1 with the first five rows.
  In every response the limit, by which the listing divides, is neither 0 nor \<^verbatim>\<open>NaN\<close>, and
  \<open>totalUsers\<close>, \<open>totalPages\<close>, \<open>currentPage\<close> and \<open>limit\<close> are finite. The listing answers
  whenever the limit parameter falls back to the default or fits the client's \<^verbatim>\<open>Int\<close>.
\<close>

theorem getAllUsers_defaults:
  "(defaulted pf (limit_param q) \<longrightarrow>
      UsersController_getAllUsers pf st q =
        Response HttpStatus_OK
          \<lparr>data = take 5
             (drop (nat ((clamp_page (or_default (parse_param pf (page_param q)) 1)
                            \<lceil>real (count st) / 5\<rceil> - 1) * 5)) (rev st)),
           totalUsers = Fin (int (count st)),
           totalPages = Fin \<lceil>real (count st) / 5\<rceil>,
           currentPage =
             Fin (clamp_page (or_default (parse_param pf (page_param q)) 1)
                    \<lceil>real (count st) / 5\<rceil>),
           page_limit = Fin 5,
           hasNext = (clamp_page (or_default (parse_param pf (page_param q)) 1)
                        \<lceil>real (count st) / 5\<rceil> < \<lceil>real (count st) / 5\<rceil>),
           hasPrev = (1 < clamp_page (or_default (parse_param pf (page_param q)) 1)
                             \<lceil>real (count st) / 5\<rceil>),
           list_success = True, list_message = ''Users retrieved successfully''\<rparr>)
   \<and> (defaulted pf (page_param q) \<and> parse_param pf (limit_param q) = Some (Fin L)
        \<and> 0 < L \<and> L < 2 ^ 31 \<longrightarrow>
      UsersController_getAllUsers pf st q =
        Response HttpStatus_OK
          \<lparr>data = take (nat L) (rev st),
           totalUsers = Fin (int (count st)),
           totalPages = Fin \<lceil>real (count st) / real_of_int L\<rceil>,
           currentPage = Fin 1, page_limit = Fin L,
           hasNext = (1 < \<lceil>real (count st) / real_of_int L\<rceil>), hasPrev = False,
           list_success = True, list_message = ''Users retrieved successfully''\<rparr>)
   \<and> (defaulted pf (page_param q) \<and> defaulted pf (limit_param q) \<longrightarrow>
      UsersController_getAllUsers pf st q =
        Response HttpStatus_OK
          \<lparr>data = take 5 (rev st),
           totalUsers = Fin (int (count st)),
           totalPages = Fin \<lceil>real (count st) / 5\<rceil>,
           currentPage = Fin 1, page_limit = Fin 5,
           hasNext = (1 < \<lceil>real (count st) / 5\<rceil>), hasPrev = False,
           list_success = True, list_message = ''Users retrieved successfully''\<rparr>)
   \<and> (\<forall>c r. UsersController_getAllUsers pf st q = Response c r \<longrightarrow>
          page_limit r \<noteq> Fin 0 \<and> page_limit r \<noteq> NaN
          \<and> is_finite (totalUsers r) \<and> is_finite (totalPages r)
          \<and> is_finite (currentPage r) \<and> is_finite (page_limit r))
   \<and> (within_Int pf (limit_param q) \<longrightarrow>
        (\<exists>r. UsersController_getAllUsers pf st q = Response HttpStatus_OK r))"
proof -
  let ?query = "\<lparr>page = parse_param pf (page_param q), limit = parse_param pf (limit_param q)\<rparr>"
  let ?P = "or_default (parse_param pf (page_param q)) 1"
  have five: "0 \<le> \<lceil>real (count st) / 5\<rceil>"
    using total_pages_nonneg [of 5 "int (count st)"] by simp
  have limit_default: "UsersController_getAllUsers pf st q =
        Response HttpStatus_OK
          \<lparr>data = take 5
             (drop (nat ((clamp_page ?P \<lceil>real (count st) / 5\<rceil> - 1) * 5)) (rev st)),
           totalUsers = Fin (int (count st)),
           totalPages = Fin \<lceil>real (count st) / 5\<rceil>,
           currentPage = Fin (clamp_page ?P \<lceil>real (count st) / 5\<rceil>),
           page_limit = Fin 5,
           hasNext = (clamp_page ?P \<lceil>real (count st) / 5\<rceil> < \<lceil>real (count st) / 5\<rceil>),
           hasPrev = (1 < clamp_page ?P \<lceil>real (count st) / 5\<rceil>),
           list_success = True, list_message = ''Users retrieved successfully''\<rparr>"
    if d: "defaulted pf (limit_param q)"
  proof -
    have l: "or_default (limit ?query) 5 = Fin 5"
      using or_default_defaulted [OF d, of 5] by simp
    have "UsersService_getAllUsers pf st ?query =
      Inr \<lparr>data = take 5
             (drop (nat ((clamp_page ?P \<lceil>real (count st) / 5\<rceil> - 1) * 5)) (rev st)),
           totalUsers = Fin (int (count st)),
           totalPages = Fin \<lceil>real (count st) / 5\<rceil>,
           currentPage = Fin (clamp_page ?P \<lceil>real (count st) / 5\<rceil>),
           page_limit = Fin 5,
           hasNext = (clamp_page ?P \<lceil>real (count st) / 5\<rceil> < \<lceil>real (count st) / 5\<rceil>),
           hasPrev = (1 < clamp_page ?P \<lceil>real (count st) / 5\<rceil>)\<rparr>"
      using getAllUsers_pos [OF l, of pf st] by simp
    from controller_of_service [OF this] show ?thesis by simp
  qed
  have page_default: "UsersController_getAllUsers pf st q =
        Response HttpStatus_OK
          \<lparr>data = take (nat L) (rev st),
           totalUsers = Fin (int (count st)),
           totalPages = Fin \<lceil>real (count st) / real_of_int L\<rceil>,
           currentPage = Fin 1, page_limit = Fin L,
           hasNext = (1 < \<lceil>real (count st) / real_of_int L\<rceil>), hasPrev = False,
           list_success = True, list_message = ''Users retrieved successfully''\<rparr>"
    if h: "defaulted pf (page_param q) \<and> parse_param pf (limit_param q) = Some (Fin L)
        \<and> 0 < L \<and> L < 2 ^ 31"
  proof -
    from h have pos: "0 < L" and fits: "L < 2 ^ 31" by simp_all
    from h have l: "or_default (limit ?query) 5 = Fin L" by simp
    from h have p: "?P = Fin 1" using or_default_defaulted [of pf "page_param q" 1] by simp
    have tp: "0 \<le> \<lceil>real (count st) / real_of_int L\<rceil>"
      using total_pages_nonneg [OF pos, of "int (count st)"] by simp
    have "UsersService_getAllUsers pf st ?query =
      Inr \<lparr>data = take (nat L) (rev st),
           totalUsers = Fin (int (count st)),
           totalPages = Fin \<lceil>real (count st) / real_of_int L\<rceil>,
           currentPage = Fin 1, page_limit = Fin L,
           hasNext = (1 < \<lceil>real (count st) / real_of_int L\<rceil>), hasPrev = False\<rparr>"
      using getAllUsers_pos [OF l pos fits, of pf st] p clamp_one [OF tp] by simp
    from controller_of_service [OF this] show ?thesis by simp
  qed
  have both_default: "UsersController_getAllUsers pf st q =
        Response HttpStatus_OK
          \<lparr>data = take 5 (rev st),
           totalUsers = Fin (int (count st)),
           totalPages = Fin \<lceil>real (count st) / 5\<rceil>,
           currentPage = Fin 1, page_limit = Fin 5,
           hasNext = (1 < \<lceil>real (count st) / 5\<rceil>), hasPrev = False,
           list_success = True, list_message = ''Users retrieved successfully''\<rparr>"
    if h: "defaulted pf (page_param q) \<and> defaulted pf (limit_param q)"
  proof -
    from h have p: "?P = Fin 1" using or_default_defaulted [of pf "page_param q" 1] by simp
    from h have d: "defaulted pf (limit_param q)" by simp
    show ?thesis
      using limit_default [OF d] clamp_one [OF five] unfolding p by simp
  qed
  have fields: "page_limit r \<noteq> Fin 0 \<and> page_limit r \<noteq> NaN
          \<and> is_finite (totalUsers r) \<and> is_finite (totalPages r)
          \<and> is_finite (currentPage r) \<and> is_finite (page_limit r)"
    if h: "UsersController_getAllUsers pf st q = Response c r" for c r
  proof -
    from controller_response [OF h] obtain r' where
      r': "UsersService_getAllUsers pf st ?query = Inr r'"
      and eq: "page_limit r = page_limit r'" "totalUsers r = totalUsers r'"
        "totalPages r = totalPages r'" "currentPage r = currentPage r'" by blast
    from service_fields [OF r'] show ?thesis unfolding eq .
  qed
  have returns: "\<exists>r. UsersController_getAllUsers pf st q = Response HttpStatus_OK r"
    if h: "within_Int pf (limit_param q)"
  proof -
    from or_default_within [OF h, of 5] obtain L where
      nz: "L \<noteq> 0" and fits: "\<bar>L\<bar> < 2 ^ 31"
      and l: "or_default (limit ?query) 5 = Fin L" by auto
    from getAllUsers_returns [OF l nz fits, of pf st] obtain r where
      "UsersService_getAllUsers pf st ?query = Inr r" by blast
    from controller_of_service [OF this] show ?thesis by blast
  qed
  show ?thesis
    using limit_default page_default both_default fields returns by blast
qed


theorem getAllUsers_defaults_witness:
  "defaulted example_platform (Some ''abc'') \<and> defaulted example_platform (Some ''0'')
   \<and> defaulted example_platform None \<and> within_Int example_platform (Some ''3'')
   \<and> count seven_users = 7
   \<and> UsersController_getAllUsers example_platform seven_users
         \<lparr>page_param = Some ''abc'', limit_param = Some ''0''\<rparr> =
       Response 200
         \<lparr>data = take 5 (rev seven_users), totalUsers = Fin 7, totalPages = Fin 2,
          currentPage = Fin 1, page_limit = Fin 5, hasNext = True, hasPrev = False,
          list_success = True, list_message = ''Users retrieved successfully''\<rparr>
   \<and> length (take 5 (rev seven_users)) = 5
   \<and> UsersController_getAllUsers example_platform seven_users
         \<lparr>page_param = Some ''2'', limit_param = None\<rparr> =
       Response 200
         \<lparr>data = drop 5 (rev seven_users), totalUsers = Fin 7, totalPages = Fin 2,
          currentPage = Fin 2, page_limit = Fin 5, hasNext = False, hasPrev = True,
          list_success = True, list_message = ''Users retrieved successfully''\<rparr>
   \<and> length (drop 5 (rev seven_users)) = 2
   \<and> UsersController_getAllUsers example_platform seven_users
         \<lparr>page_param = None, limit_param = Some ''3''\<rparr> =
       Response 200
         \<lparr>data = take 3 (rev seven_users), totalUsers = Fin 7, totalPages = Fin 3,
          currentPage = Fin 1, page_limit = Fin 3, hasNext = True, hasPrev = False,
          list_success = True, list_message = ''Users retrieved successfully''\<rparr>
   \<and> length (take 3 (rev seven_users)) = 3"
proof -
  have d: "defaulted example_platform (Some ''abc'')" "defaulted example_platform (Some ''0'')"
    "defaulted example_platform None"
    by (simp_all add: defaulted_def example_platform_def decimal_parseInt_def)
  have w: "within_Int example_platform (Some ''3'')"
    by (simp add: within_Int_def example_platform_def decimal_parseInt_def)
  have c: "count seven_users = 7"
    by (simp add: count_def seven_users_def)
  have ok: "HttpStatus_OK = 200"
    by (simp add: HttpStatus_OK_def)
  have t5: "\<lceil>real (count seven_users) / 5\<rceil> = 2"
    unfolding c using ceiling_divide_eq_div [of 7 5] by simp
  have t3: "\<lceil>real (count seven_users) / real_of_int 3\<rceil> = 3"
    unfolding c using ceiling_divide_eq_div [of 7 3] by simp
  have p2: "or_default (parse_param example_platform (Some ''2'')) 1 = Fin 2"
    by (simp add: parse_param_def example_platform_def decimal_parseInt_def)
  have l3: "parse_param example_platform (Some ''3'') = Some (Fin 3)"
    by (simp add: parse_param_def example_platform_def decimal_parseInt_def)
  have len: "length (rev seven_users) = 7"
    using c by (simp add: count_def)
  have n5: "length (take 5 (rev seven_users)) = 5" using len by simp
  have n2: "length (drop 5 (rev seven_users)) = 2" using len by simp
  have n3: "length (take 3 (rev seven_users)) = 3" using len by simp
  have k: "take 5 (drop 5 (rev seven_users)) = drop 5 (rev seven_users)"
    using len by simp
  note both = getAllUsers_defaults [where pf = example_platform and st = seven_users
      and q = "\<lparr>page_param = Some ''abc'', limit_param = Some ''0''\<rparr>",
      THEN conjunct2, THEN conjunct2, THEN conjunct1, THEN mp]
  have r1: "UsersController_getAllUsers example_platform seven_users
         \<lparr>page_param = Some ''abc'', limit_param = Some ''0''\<rparr> =
       Response 200
         \<lparr>data = take 5 (rev seven_users), totalUsers = Fin 7, totalPages = Fin 2,
          currentPage = Fin 1, page_limit = Fin 5, hasNext = True, hasPrev = False,
          list_success = True, list_message = ''Users retrieved successfully''\<rparr>"
    using both d unfolding t5 ok c by simp
  note lim = getAllUsers_defaults [where pf = example_platform and st = seven_users
      and q = "\<lparr>page_param = Some ''2'', limit_param = None\<rparr>", THEN conjunct1, THEN mp]
  have r2: "UsersController_getAllUsers example_platform seven_users
         \<lparr>page_param = Some ''2'', limit_param = None\<rparr> =
       Response 200
         \<lparr>data = drop 5 (rev seven_users), totalUsers = Fin 7, totalPages = Fin 2,
          currentPage = Fin 2, page_limit = Fin 5, hasNext = False, hasPrev = True,
          list_success = True, list_message = ''Users retrieved successfully''\<rparr>"
    using lim d(3) unfolding t5 ok c by (simp add: p2 k)
  note pg = getAllUsers_defaults [where pf = example_platform and st = seven_users
      and q = "\<lparr>page_param = None, limit_param = Some ''3''\<rparr>" and L = 3,
      THEN conjunct2, THEN conjunct1, THEN mp]
  have r3: "UsersController_getAllUsers example_platform seven_users
         \<lparr>page_param = None, limit_param = Some ''3''\<rparr> =
       Response 200
         \<lparr>data = take 3 (rev seven_users), totalUsers = Fin 7, totalPages = Fin 3,
          currentPage = Fin 1, page_limit = Fin 3, hasNext = True, hasPrev = False,
          list_success = True, list_message = ''Users retrieved successfully''\<rparr>"
    using pg d(3) l3 unfolding t3 ok c by simp
  show ?thesis by (intro conjI d w c r1 n5 r2 n2 r3 n3)
qed

section \<open>The handlers for delete and update\<close>

lemma deleteUser_not_null: "fst (UsersService_deleteUser st i) \<noteq> Inr None"
  using deleteUser_cases [of st i "fst (UsersService_deleteUser st i)" "snd (UsersService_deleteUser st i)"]
  by auto

lemma updateUser_not_null: "fst (UsersService_updateUser pf st i body) \<noteq> Inr None"
  using updateUser_cases [of pf st i body "fst (UsersService_updateUser pf st i body)"
      "snd (UsersService_updateUser pf st i body)"]
  by auto

lemma updateUser_absent:
  "i \<notin> set (map user_id st) \<Longrightarrow>
   \<exists>e. fst (UsersService_updateUser pf st i body) = Inl (BadRequestException e)"
  by (auto simp: UsersService_updateUser_def findUnique_id_def find_id_None split: sum.splits)

lemma controller_delete_fst:
  "fst (UsersController_deleteUser st i) =
     (case fst (UsersService_deleteUser st i) of
        Inl e \<Rightarrow> Raised e
      | Inr None \<Rightarrow> Response HttpStatus_OK
          \<lparr>success = False, message = ''User not found'', payload = None, errors = None\<rparr>
      | Inr (Some u) \<Rightarrow> Response HttpStatus_OK
          \<lparr>success = True, message = ''User deleted successfully'', payload = Some u,
           errors = None\<rparr>)"
  by (simp add: UsersController_deleteUser_def split: prod.splits sum.splits option.splits)

lemma controller_update_fst:
  "fst (UsersController_updateUser pf st i body) =
     (case fst (UsersService_updateUser pf st i body) of
        Inl e \<Rightarrow> Raised e
      | Inr None \<Rightarrow> Response HttpStatus_OK
          \<lparr>success = False, message = ''User not found'', payload = None, errors = None\<rparr>
      | Inr (Some u) \<Rightarrow> Response HttpStatus_OK
          \<lparr>success = True, message = ''User updated successfully'', payload = Some u,
           errors = None\<rparr>)"
  by (simp add: UsersController_updateUser_def split: prod.splits sum.splits option.splits)

text \<open>
  Claim C9. The services \<^verbatim>\<open>deleteUser\<close> and \<^verbatim>\<open>updateUser\<close> never return \<^verbatim>\<open>null\<close>, so the handlers
  for delete and update never answer with their \<^verbatim>\<open>User not found\<close> envelope (\<^verbatim>\<open>success: false\<close>),
  whatever the status code. For an identifier that no row has, the services throw a
  \<^verbatim>\<open>BadRequestException\<close> and the handlers let it through.
\<close>

theorem not_found_envelope_unreachable:
  "fst (UsersService_deleteUser st i) \<noteq> Inr None
   \<and> fst (UsersService_updateUser pf st i body) \<noteq> Inr None
   \<and> fst (UsersController_deleteUser st i) \<noteq>
       Response c \<lparr>success = False, message = ''User not found'', payload = None, errors = None\<rparr>
   \<and> fst (UsersController_updateUser pf st i body) \<noteq>
       Response c \<lparr>success = False, message = ''User not found'', payload = None, errors = None\<rparr>
   \<and> (i \<notin> set (map user_id st) \<longrightarrow>
        fst (UsersController_deleteUser st i) =
          Raised (BadRequestException (Message (''User with id '' @ i @ '' not found'')))
        \<and> (\<exists>e. fst (UsersController_updateUser pf st i body) = Raised (BadRequestException e)))"
proof (intro conjI impI)
  show d: "fst (UsersService_deleteUser st i) \<noteq> Inr None"
    by (rule deleteUser_not_null)
  show u: "fst (UsersService_updateUser pf st i body) \<noteq> Inr None"
    by (rule updateUser_not_null)
  show "fst (UsersController_deleteUser st i) \<noteq>
       Response c \<lparr>success = False, message = ''User not found'', payload = None, errors = None\<rparr>"
    unfolding controller_delete_fst using d by (auto split: sum.splits option.splits)
  show "fst (UsersController_updateUser pf st i body) \<noteq>
       Response c \<lparr>success = False, message = ''User not found'', payload = None, errors = None\<rparr>"
    unfolding controller_update_fst using u by (auto split: sum.splits option.splits)
next
  assume a: "i \<notin> set (map user_id st)"
  show "fst (UsersController_deleteUser st i) =
          Raised (BadRequestException (Message (''User with id '' @ i @ '' not found'')))"
    using a
    by (simp add: UsersService_deleteUser_def UsersController_deleteUser_def findUnique_id_def
      find_id_None)
  show "\<exists>e. fst (UsersController_updateUser pf st i body) = Raised (BadRequestException e)"
    unfolding controller_update_fst using updateUser_absent [OF a, of pf body] by auto
qed

theorem not_found_envelope_unreachable_witness:
  "''u9'' \<notin> set (map user_id [alice_row])
   \<and> fst (UsersController_deleteUser [alice_row] ''u9'') =
       Raised (BadRequestException (Message ''User with id u9 not found''))
   \<and> fst (UsersController_updateUser example_platform [alice_row] ''u9''
          (JObj [(''name'', JStr ''Bob'')])) =
       Raised (BadRequestException (Message ''User with id u9 not found''))
   \<and> fst (UsersController_deleteUser [alice_row] ''u1'') \<noteq>
       Response 200 \<lparr>success = False, message = ''User not found'', payload = None, errors = None\<rparr>"
proof -
  have h: "''u9'' \<notin> set (map user_id [alice_row])"
    by (simp add: alice_row_def)
  have e: "fst (UsersController_updateUser example_platform [alice_row] ''u9''
          (JObj [(''name'', JStr ''Bob'')])) =
       Raised (BadRequestException (Message ''User with id u9 not found''))"
    by code_simp
  from not_found_envelope_unreachable [of "[alice_row]" "''u9''" example_platform
      "JObj [(''name'', JStr ''Bob'')]" 200]
    not_found_envelope_unreachable [of "[alice_row]" "''u1''" example_platform
      "JObj [(''name'', JStr ''Bob'')]" 200]
  show ?thesis using h e by simp
qed

text \<open>
  Claim C6. Whatever the request body, \<^verbatim>\<open>updateUser\<close> leaves the identifiers of all rows as
  they are, in their order. When it returns a user, that user has the identifier of the
  request, which a row of the store had before, and it is the row found under that identifier
  afterwards.
\<close>

theorem updateUser_keeps_id:
  "map user_id (snd (UsersService_updateUser pf st i body)) = map user_id st
   \<and> (\<forall>u. fst (UsersService_updateUser pf st i body) = Inr (Some u) \<longrightarrow>
          user_id u = i \<and> i \<in> set (map user_id st)
          \<and> findUnique_id (snd (UsersService_updateUser pf st i body)) i = Some u)"
proof -
  obtain r st' where eq: "UsersService_updateUser pf st i body = (r, st')"
    by (cases "UsersService_updateUser pf st i body")
  from updateUser_cases [OF eq] show ?thesis
  proof
    assume "st' = st \<and> isl r"
    then show ?thesis unfolding eq by auto
  next
    assume "\<exists>d u. UpdateUserSchema_safeParse pf body = Inr d \<and> findUnique_id st i = Some u
            \<and> (\<forall>e. new_email d = Some e \<longrightarrow> e \<noteq> [] \<longrightarrow> findFirst_email_not_id st e i = None)
            \<and> r = Inr (Some (apply_changes d u))
            \<and> st' = map (\<lambda>v. if user_id v = i then apply_changes d v else v) st"
    then obtain d u where f: "findUnique_id st i = Some u"
      and r: "r = Inr (Some (apply_changes d u))"
      and st': "st' = map (\<lambda>v. if user_id v = i then apply_changes d v else v) st" by blast
    from f have ui: "user_id u = i" and mem: "u \<in> set st"
      by (auto simp: findUnique_id_def find_Some_iff)
    have ids: "map user_id st' = map user_id st"
      unfolding st' by (induction st) simp_all
    have fnd: "find (\<lambda>u. user_id u = i) (map (\<lambda>v. if user_id v = i then apply_changes d v else v) xs)
        = map_option (apply_changes d) (find (\<lambda>u. user_id u = i) xs)" for xs
      by (induction xs) simp_all
    have "findUnique_id st' i = Some (apply_changes d u)"
      using f unfolding st' findUnique_id_def fnd by simp
    then show ?thesis unfolding eq using ids r ui mem by auto
  qed
qed

theorem updateUser_keeps_id_witness:
  "UsersService_updateUser example_platform [alice_row, bob_row] ''u2''
      (JObj [(''id'', JStr ''u1''), (''name'', JStr ''Robert'')]) =
     (Inr (Some (bob_row\<lparr>name := ''Robert''\<rparr>)), [alice_row, bob_row\<lparr>name := ''Robert''\<rparr>])
   \<and> user_id (bob_row\<lparr>name := ''Robert''\<rparr>) = ''u2''
   \<and> map user_id (snd (UsersService_updateUser example_platform [alice_row, bob_row] ''u2''
      (JObj [(''id'', JStr ''u1''), (''name'', JStr ''Robert'')]))) = [''u1'', ''u2'']"
proof -
  have e: "UsersService_updateUser example_platform [alice_row, bob_row] ''u2''
      (JObj [(''id'', JStr ''u1''), (''name'', JStr ''Robert'')]) =
     (Inr (Some (bob_row\<lparr>name := ''Robert''\<rparr>)), [alice_row, bob_row\<lparr>name := ''Robert''\<rparr>])"
    by code_simp
  have m: "map user_id [alice_row, bob_row] = [''u1'', ''u2'']"
    by (simp add: alice_row_def bob_row_def)
  note k = updateUser_keeps_id [of example_platform "[alice_row, bob_row]" "''u2''"
      "JObj [(''id'', JStr ''u1''), (''name'', JStr ''Robert'')]"]
  have ids: "map user_id (snd (UsersService_updateUser example_platform [alice_row, bob_row] ''u2''
      (JObj [(''id'', JStr ''u1''), (''name'', JStr ''Robert'')]))) = [''u1'', ''u2'']"
    using k [THEN conjunct1] unfolding m .
  have u: "user_id (bob_row\<lparr>name := ''Robert''\<rparr>) = ''u2''"
    using k [THEN conjunct2, rule_format, of "bob_row\<lparr>name := ''Robert''\<rparr>"] e by simp
  show ?thesis by (intro conjI e u ids)
qed

section \<open>Validation and the email checks\<close>

text \<open>
  Claim C8. When the body is an object and \<^verbatim>\<open>UpdateUserSchema\<close> finds issues, \<^verbatim>\<open>updateUser\<close>
  throws a \<^verbatim>\<open>BadRequestException\<close> built from one string: \<^verbatim>\<open>Validation failed: \<close> followed by the
  pairs \<^verbatim>\<open>path: message\<close>, one for each issue in the order of the issues, joined by a comma
  and a space, where the path is joined by dots. It carries no list of field errors. The
  handler lets the exception through and the store is unchanged.
\<close>

theorem updateUser_validation_message:
  assumes "userData = JObj kvs" and "UpdateUserSchema_safeParse pf userData = Inl issues"
  shows "UsersService_updateUser pf st i userData =
           (Inl (BadRequestException (Message (''Validation failed: '' @
              join '', '' (map (\<lambda>err. join ''.'' (map segment_string (path err)) @ '': '' @
                                issue_message err) issues)))), st)
         \<and> UsersController_updateUser pf st i userData =
           (Raised (BadRequestException (Message (''Validation failed: '' @
              join '', '' (map (\<lambda>err. join ''.'' (map segment_string (path err)) @ '': '' @
                                issue_message err) issues)))), st)"
  using assms by (simp add: UsersService_updateUser_def UsersController_updateUser_def)

theorem updateUser_validation_message_witness:
  "UpdateUserSchema_safeParse example_platform
       (JObj [(''name'', JStr ''A''), (''skills'', JArr [JObj [(''field'', JStr ''ab'')]])]) =
     Inl [\<lparr>path = [Key ''name''], issue_message = ''Name must be at least 2 characters long''\<rparr>,
          \<lparr>path = [Key ''skills'', Idx 0, Key ''field''],
           issue_message = ''Skill field must be at least 3 characters long''\<rparr>,
          \<lparr>path = [Key ''skills'', Idx 0, Key ''tags''],
           issue_message = ''Invalid input: expected array''\<rparr>]
   \<and> UsersService_updateUser example_platform [alice_row] ''u1''
       (JObj [(''name'', JStr ''A''), (''skills'', JArr [JObj [(''field'', JStr ''ab'')]])]) =
     (Inl (BadRequestException (Message
        ''Validation failed: name: Name must be at least 2 characters long, skills.0.field: Skill field must be at least 3 characters long, skills.0.tags: Invalid input: expected array'')),
      [alice_row])"
proof -
  have p: "UpdateUserSchema_safeParse example_platform
       (JObj [(''name'', JStr ''A''), (''skills'', JArr [JObj [(''field'', JStr ''ab'')]])]) =
     Inl [\<lparr>path = [Key ''name''], issue_message = ''Name must be at least 2 characters long''\<rparr>,
          \<lparr>path = [Key ''skills'', Idx 0, Key ''field''],
           issue_message = ''Skill field must be at least 3 characters long''\<rparr>,
          \<lparr>path = [Key ''skills'', Idx 0, Key ''tags''],
           issue_message = ''Invalid input: expected array''\<rparr>]"
    by code_simp
  have s: "string_of_nat 0 = ''0''"
    by code_simp
  note k = updateUser_validation_message [OF refl p, of "[alice_row]" "''u1''", THEN conjunct1]
  have m: "UsersService_updateUser example_platform [alice_row] ''u1''
       (JObj [(''name'', JStr ''A''), (''skills'', JArr [JObj [(''field'', JStr ''ab'')]])]) =
     (Inl (BadRequestException (Message
        ''Validation failed: name: Name must be at least 2 characters long, skills.0.field: Skill field must be at least 3 characters long, skills.0.tags: Invalid input: expected array'')),
      [alice_row])"
    using k by (simp add: s del: string_of_nat.simps)
  show ?thesis by (intro conjI p m)
qed

lemma find_Some_ex: "x \<in> set xs \<Longrightarrow> P x \<Longrightarrow> \<exists>y. find P xs = Some y"
  by (cases "find P xs") (auto simp: find_None_iff)

text \<open>
  Claim C5. Let the update be for an existing user, and let the validated changes contain
  that user's current email. If \<^verbatim>\<open>updateUser\<close> throws \<^verbatim>\<open>Email already exists\<close>, then a row with
  another identifier has that email. If no row with another identifier has it, the update
  goes through: the changes are written to the row and the updated user is returned.
\<close>

theorem updateUser_own_email:
  assumes f: "findUnique_id st i = Some u"
    and p: "UpdateUserSchema_safeParse pf body = Inr d"
    and e: "new_email d = Some (email u)"
  shows "(fst (UsersService_updateUser pf st i body) =
            Inl (BadRequestException (Message ''Email already exists'')) \<longrightarrow>
          (\<exists>v\<in>set st. user_id v \<noteq> i \<and> email v = email u))
       \<and> ((\<forall>v\<in>set st. email v = email u \<longrightarrow> user_id v = i) \<longrightarrow>
           UsersService_updateUser pf st i body =
             (Inr (Some (apply_changes d u)),
              map (\<lambda>v. if user_id v = i then apply_changes d v else v) st))"
proof (intro conjI impI)
  assume "fst (UsersService_updateUser pf st i body) =
            Inl (BadRequestException (Message ''Email already exists''))"
  then have "findFirst_email_not_id st (email u) i \<noteq> None"
    using f p e safeParse_update_object [OF p]
    by (auto simp: UsersService_updateUser_def store_update_def findUnique_id_def
        split: if_splits)
  then show "\<exists>v\<in>set st. user_id v \<noteq> i \<and> email v = email u"
    by (auto simp: findFirst_email_not_id_def find_None_iff)
next
  assume "\<forall>v\<in>set st. email v = email u \<longrightarrow> user_id v = i"
  then have "findFirst_email_not_id st (email u) i = None"
    by (auto simp: findFirst_email_not_id_def find_None_iff)
  then show "UsersService_updateUser pf st i body =
             (Inr (Some (apply_changes d u)),
              map (\<lambda>v. if user_id v = i then apply_changes d v else v) st)"
    using f p e safeParse_update_object [OF p]
    by (auto simp: UsersService_updateUser_def store_update_def findUnique_id_def)
qed

theorem updateUser_own_email_witness:
  "findUnique_id [alice_row, bob_row] ''u1'' = Some alice_row
   \<and> user_id alice_row = ''u1'' \<and> email bob_row \<noteq> email alice_row
   \<and> UsersService_updateUser example_platform [alice_row, bob_row] ''u1''
         (JObj [(''email'', JStr ''A@x.com''), (''name'', JStr ''Alicia'')]) =
       (Inr (Some (alice_row\<lparr>name := ''Alicia''\<rparr>)), [alice_row\<lparr>name := ''Alicia''\<rparr>, bob_row])"
proof -
  let ?d = "\<lparr>new_name = Some ''Alicia'', new_ext = None, new_phone = None,
          new_email = Some ''a@x.com'', new_dateOfBirth = None, new_password = None,
          new_skills = None\<rparr>"
  have f: "findUnique_id [alice_row, bob_row] ''u1'' = Some alice_row"
    by (simp add: findUnique_id_def alice_row_def)
  have p: "UpdateUserSchema_safeParse example_platform
        (JObj [(''email'', JStr ''A@x.com''), (''name'', JStr ''Alicia'')]) = Inr ?d"
    by code_simp
  have e: "new_email ?d = Some (email alice_row)"
    by (simp add: alice_row_def)
  have others: "\<forall>v\<in>set [alice_row, bob_row]. email v = email alice_row \<longrightarrow> user_id v = ''u1''"
    by (simp add: alice_row_def bob_row_def)
  have a: "apply_changes ?d alice_row = alice_row\<lparr>name := ''Alicia''\<rparr>"
    by (simp add: apply_changes_def alice_row_def)
  have m: "map (\<lambda>v. if user_id v = ''u1'' then apply_changes ?d v else v) [alice_row, bob_row]
      = [alice_row\<lparr>name := ''Alicia''\<rparr>, bob_row]"
    by (simp add: a) (simp add: alice_row_def bob_row_def)
  have ok: "UsersService_updateUser example_platform [alice_row, bob_row] ''u1''
         (JObj [(''email'', JStr ''A@x.com''), (''name'', JStr ''Alicia'')]) =
       (Inr (Some (alice_row\<lparr>name := ''Alicia''\<rparr>)), [alice_row\<lparr>name := ''Alicia''\<rparr>, bob_row])"
    using updateUser_own_email [OF f p e, THEN conjunct2, THEN mp, OF others]
    unfolding a m .
  have ia: "user_id alice_row = ''u1''"
    by (simp add: alice_row_def)
  have ne: "email bob_row \<noteq> email alice_row"
    by (simp add: alice_row_def bob_row_def)
  show ?thesis by (intro conjI f ia ne ok)
qed

text \<open>
  Claim C3. Let a first create request succeed, and let a second request pass the schema,
  where the emails of the two bodies are the same up to letter case. Then the second
  \<^verbatim>\<open>createUser\<close> throws the \<^verbatim>\<open>BadRequestException\<close> \<^verbatim>\<open>User already exists\<close> with the field error for
  \<^verbatim>\<open>email\<close>, and writes nothing: both emails are trimmed and lower-cased by the schema, and the
  lookup finds the row of the first user under the normalised email.
\<close>

theorem create_same_email_other_case:
  assumes c1: "UsersService_createUser pf st i1 b1 = (Inr u1, st1)"
    and p2: "CreateUserSchema_safeParse pf b2 = Inr d2"
    and e1: "index b1 (Key ''email'') = JStr e1"
    and e2: "index b2 (Key ''email'') = JStr e2"
    and same: "toLowerCase e1 = toLowerCase e2"
  shows "UsersService_createUser pf st1 i2 b2 =
           (Inl (BadRequestException (Body ''User already exists''
              [\<lparr>error_field = ''email'',
                error_message = ''User with this email already exists'',
                receivedValue = Some (JStr (toLowerCase (trim e1)))\<rparr>])), st1)
         \<and> email u1 = toLowerCase (trim e1) \<and> email d2 = email u1"
proof -
  from createUser_cases [OF c1] obtain d1 where
    p1: "CreateUserSchema_safeParse pf b1 = Inr d1" and st1: "st1 = st @ [u1]"
    and eu: "email u1 = email d1" by auto
  from CreateUserSchema_email [OF p1] e1 have m1: "email d1 = toLowerCase (trim e1)" by auto
  from CreateUserSchema_email [OF p2] e2 have m2: "email d2 = toLowerCase (trim e2)" by auto
  have "toLowerCase (trim e1) = toLowerCase (trim e2)"
    using same by (simp add: trim_toLowerCase [symmetric])
  with m1 m2 eu have eq: "email d2 = email u1" and n: "email u1 = toLowerCase (trim e1)"
    by simp_all
  have "u1 \<in> set st1" using st1 by simp
  then obtain x where x: "findUnique_email st1 (email d2) = Some x"
    using find_Some_ex [of u1 st1 "\<lambda>u. email u = email d2"] eq
    by (auto simp: findUnique_email_def)
  have "UsersService_createUser pf st1 i2 b2 =
           (Inl (BadRequestException (Body ''User already exists''
              [\<lparr>error_field = ''email'',
                error_message = ''User with this email already exists'',
                receivedValue = Some (JStr (email d2))\<rparr>])), st1)"
    using p2 x safeParse_create_object [OF p2]
    by (simp add: UsersService_createUser_def)
  then show ?thesis using eq n by simp
qed

theorem create_same_email_other_case_witness:
  "UsersService_createUser example_platform [] ''u1'' (alice_body ''A@x.com'') =
     (Inr alice_row, [alice_row])
   \<and> index (alice_body ''A@x.com'') (Key ''email'') = JStr ''A@x.com''
   \<and> index (alice_body ''a@x.com'') (Key ''email'') = JStr ''a@x.com''
   \<and> toLowerCase ''A@x.com'' = toLowerCase ''a@x.com''
   \<and> UsersService_createUser example_platform [alice_row] ''u2'' (alice_body ''a@x.com'') =
       (Inl (BadRequestException (Body ''User already exists''
          [\<lparr>error_field = ''email'',
            error_message = ''User with this email already exists'',
            receivedValue = Some (JStr ''a@x.com'')\<rparr>])), [alice_row])"
proof -
  let ?d = "\<lparr>name = ''Alice'', ext = ''+1'', phone = ''5550100'', email = ''a@x.com'',
          dateOfBirth = Some 946684800000, password = ''secret1'',
          skills = [\<lparr>field = ''cooking'', tags = [''pasta'']\<rparr>]\<rparr>"
  have c1: "UsersService_createUser example_platform [] ''u1'' (alice_body ''A@x.com'') =
     (Inr alice_row, [alice_row])"
    by code_simp
  have p2: "CreateUserSchema_safeParse example_platform (alice_body ''a@x.com'') = Inr ?d"
    by code_simp
  have e1: "index (alice_body ''A@x.com'') (Key ''email'') = JStr ''A@x.com''"
    by code_simp
  have e2: "index (alice_body ''a@x.com'') (Key ''email'') = JStr ''a@x.com''"
    by code_simp
  have same: "toLowerCase ''A@x.com'' = toLowerCase ''a@x.com''"
    by code_simp
  have n: "toLowerCase (trim ''A@x.com'') = ''a@x.com''"
    by code_simp
  have dup: "UsersService_createUser example_platform [alice_row] ''u2'' (alice_body ''a@x.com'') =
       (Inl (BadRequestException (Body ''User already exists''
          [\<lparr>error_field = ''email'',
            error_message = ''User with this email already exists'',
            receivedValue = Some (JStr ''a@x.com'')\<rparr>])), [alice_row])"
    using create_same_email_other_case [OF c1 p2 e1 e2 same, of "''u2''", THEN conjunct1]
    unfolding n .
  show ?thesis by (intro conjI c1 e1 e2 same dup)
qed

section \<open>Emails stay unique\<close>

lemma controller_create_snd:
  "snd (UsersController_createUser pf st nid body) = snd (UsersService_createUser pf st nid body)"
  by (simp add: UsersController_createUser_def split: prod.splits sum.splits exn.splits)

lemma controller_update_snd:
  "snd (UsersController_updateUser pf st i body) = snd (UsersService_updateUser pf st i body)"
  by (simp add: UsersController_updateUser_def split: prod.splits sum.splits option.splits)

lemma controller_delete_snd:
  "snd (UsersController_deleteUser st i) = snd (UsersService_deleteUser st i)"
  by (simp add: UsersController_deleteUser_def split: prod.splits sum.splits option.splits)

lemma find_email_None: "findUnique_email st e = None \<Longrightarrow> e \<notin> set (map email st)"
  by (auto simp: findUnique_email_def find_None_iff)

lemma find_other_None:
  "findFirst_email_not_id st e i = None \<Longrightarrow> \<forall>v\<in>set st. email v = e \<longrightarrow> user_id v = i"
  by (auto simp: findFirst_email_not_id_def find_None_iff)

lemma map_id_update:
  "map user_id (map (\<lambda>v. if user_id v = i then apply_changes d v else v) st) = map user_id st"
  by (induction st) simp_all

lemma emails_unchanged:
  "new_email d = None \<Longrightarrow>
   map email (map (\<lambda>v. if user_id v = i then apply_changes d v else v) st) = map email st"
  by (induction st) (simp_all add: apply_changes_email)

lemma emails_changed:
  "new_email d = Some e \<Longrightarrow>
   map email (map (\<lambda>v. if user_id v = i then apply_changes d v else v) st) =
   map (\<lambda>v. if user_id v = i then e else email v) st"
  by (induction st) (simp_all add: apply_changes_email)

lemma distinct_email_update:
  assumes "distinct (map user_id st)" and "distinct (map email st)"
    and "\<forall>v\<in>set st. email v = e \<longrightarrow> user_id v = i"
  shows "distinct (map (\<lambda>v. if user_id v = i then e else email v) st)"
  using assms
proof (induction st)
  case Nil
  then show ?case by simp
next
  case (Cons a st)
  then have ih: "distinct (map (\<lambda>v. if user_id v = i then e else email v) st)"
    by simp
  show ?case
  proof (cases "user_id a = i")
    case True
    from Cons.prems(1) have "user_id a \<notin> user_id ` set st" by simp
    then have others: "\<forall>v\<in>set st. user_id v \<noteq> i"
      unfolding True [symmetric] by (metis imageI)
    with Cons.prems(3) have notin: "e \<notin> email ` set st" by auto
    from others have
      m: "map (\<lambda>v. if user_id v = i then e else email v) st = map email st"
      by (induction st) simp_all
    then have im: "(\<lambda>v. if user_id v = i then e else email v) ` set st = email ` set st"
      by (metis set_map)
    show ?thesis using True Cons.prems(2) notin by (simp add: m im)
  next
    case False
    with Cons.prems(3) have ne: "email a \<noteq> e" by auto
    from Cons.prems(2) have "email a \<notin> email ` set st" by simp
    with ne have "email a \<notin> (\<lambda>v. if user_id v = i then e else email v) ` set st"
      by auto
    with False ih show ?thesis by simp
  qed
qed

lemma handle_inv:
  assumes blank: "\<forall>s. email_format pf s \<longrightarrow> trim s \<noteq> []" and inv: "store_inv st"
  shows "store_inv (handle pf st r)"
proof (cases r)
  case (Create nid body)
  obtain res st' where eq: "UsersService_createUser pf st nid body = (res, st')"
    by (cases "UsersService_createUser pf st nid body")
  from createUser_cases [OF eq] show ?thesis
  proof
    assume "st' = st \<and> isl res"
    then show ?thesis using inv Create eq by (simp add: controller_create_snd)
  next
    assume "\<exists>d u. CreateUserSchema_safeParse pf body = Inr d \<and> findUnique_email st (email d) = None
            \<and> nid \<notin> set (map user_id st) \<and> res = Inr u \<and> st' = st @ [u]
            \<and> email u = email d \<and> user_id u = nid"
    then obtain d u where p: "CreateUserSchema_safeParse pf body = Inr d"
      and fe: "findUnique_email st (email d) = None" and fresh: "nid \<notin> set (map user_id st)"
      and st': "st' = st @ [u]" and eu: "email u = email d" and iu: "user_id u = nid" by blast
    from CreateUserSchema_email [OF p] obtain s where "email d = toLowerCase (trim s)" by blast
    then have low: "toLowerCase (email u) = email u"
      using eu by (simp add: toLowerCase_idem)
    from find_email_None [OF fe] eu have "email u \<notin> set (map email st)" by simp
    then have "store_inv st'"
      using inv fresh iu low unfolding st' store_inv_def by auto
    then show ?thesis using Create eq by (simp add: controller_create_snd)
  qed
next
  case (Update i body)
  obtain res st' where eq: "UsersService_updateUser pf st i body = (res, st')"
    by (cases "UsersService_updateUser pf st i body")
  from updateUser_cases [OF eq] show ?thesis
  proof
    assume "st' = st \<and> isl res"
    then show ?thesis using inv Update eq by (simp add: controller_update_snd)
  next
    assume "\<exists>d u. UpdateUserSchema_safeParse pf body = Inr d \<and> findUnique_id st i = Some u
            \<and> (\<forall>e. new_email d = Some e \<longrightarrow> e \<noteq> [] \<longrightarrow> findFirst_email_not_id st e i = None)
            \<and> res = Inr (Some (apply_changes d u))
            \<and> st' = map (\<lambda>v. if user_id v = i then apply_changes d v else v) st"
    then obtain d u where p: "UpdateUserSchema_safeParse pf body = Inr d"
      and chk: "\<forall>e. new_email d = Some e \<longrightarrow> e \<noteq> [] \<longrightarrow> findFirst_email_not_id st e i = None"
      and st': "st' = map (\<lambda>v. if user_id v = i then apply_changes d v else v) st" by blast
    have ids: "distinct (map user_id st')"
      using inv unfolding st' map_id_update store_inv_def by simp
    have "distinct (map email st') \<and> (\<forall>u\<in>set st'. toLowerCase (email u) = email u)"
    proof (cases "new_email d")
      case None
      have "\<forall>u\<in>set st'. toLowerCase (email u) = email u"
        using inv None unfolding st' store_inv_def by (auto simp: apply_changes_email)
      then show ?thesis
        using inv unfolding st' emails_unchanged [OF None] store_inv_def by simp
    next
      case (Some e)
      from UpdateUserSchema_email [OF p Some] obtain s where
        fmt: "email_format pf s" and e: "e = toLowerCase (trim s)" by blast
      from fmt blank have "trim s \<noteq> []" by simp
      then have "e \<noteq> []" unfolding e by (simp add: toLowerCase_Nil_iff)
      with chk Some have "findFirst_email_not_id st e i = None" by simp
      from find_other_None [OF this] have
        d: "distinct (map (\<lambda>v. if user_id v = i then e else email v) st)"
        using inv distinct_email_update [of st e i] by (simp add: store_inv_def)
      have low: "toLowerCase e = e" unfolding e by (simp add: toLowerCase_idem)
      have "\<forall>u\<in>set st'. toLowerCase (email u) = email u"
        using inv Some low unfolding st' store_inv_def by (auto simp: apply_changes_email)
      then show ?thesis
        using d unfolding st' emails_changed [OF Some] by simp
    qed
    with ids have "store_inv st'" by (simp add: store_inv_def)
    then show ?thesis using Update eq by (simp add: controller_update_snd)
  qed
next
  case (Delete i)
  obtain res st' where eq: "UsersService_deleteUser st i = (res, st')"
    by (cases "UsersService_deleteUser st i")
  from deleteUser_cases [OF eq] have "st' = st \<or> st' = filter (\<lambda>v. user_id v \<noteq> i) st"
    by auto
  then have "store_inv st'"
    using inv by (auto simp: store_inv_def distinct_map_filter)
  then show ?thesis using Delete eq by (simp add: controller_delete_snd)
qed

lemma run_inv:
  assumes "\<forall>s. email_format pf s \<longrightarrow> trim s \<noteq> []"
  shows "store_inv (run pf rs)"
proof (induction rs rule: rev_induct)
  case Nil
  show ?case by (simp add: run_def store_inv_def)
next
  case (snoc r rs)
  have "run pf (rs @ [r]) = handle pf (run pf rs) r" by (simp add: run_def)
  with handle_inv [OF assms snoc] show ?case by simp
qed

text \<open>
  Claim C1. Let the email format accept no blank string. After any sequence of create,
  update and delete requests on the empty store, no two rows have the same email, and every
  stored email is in lower case. A create request whose validated email is the email of a
  row is answered with the duplicate error, and an update request of an existing user whose
  validated email is the email of another row is refused with \<^verbatim>\<open>Email already exists\<close>; in
  both cases the store is as before.
\<close>

theorem email_unique:
  assumes blank: "\<forall>s. email_format pf s \<longrightarrow> trim s \<noteq> []"
  shows "distinct (map email (run pf rs))
       \<and> (\<forall>u\<in>set (run pf rs). toLowerCase (email u) = email u)
       \<and> (CreateUserSchema_safeParse pf body = Inr c \<and> email c \<in> set (map email st) \<longrightarrow>
            UsersController_createUser pf st nid body =
              (Response HttpStatus_CREATED
                 \<lparr>success = False, message = ''User already exists'', payload = None,
                  errors = Some [\<lparr>error_field = ''email'',
                    error_message = ''User with this email already exists'',
                    receivedValue = Some (JStr (email c))\<rparr>]\<rparr>, st))
       \<and> (UpdateUserSchema_safeParse pf body = Inr d \<and> new_email d = Some e
            \<and> i \<in> set (map user_id st) \<and> (\<exists>v\<in>set st. email v = e \<and> user_id v \<noteq> i) \<longrightarrow>
            UsersController_updateUser pf st i body =
              (Raised (BadRequestException (Message ''Email already exists'')), st))"
proof (intro conjI impI)
  from run_inv [OF blank, of rs]
  show "distinct (map email (run pf rs))"
    and "\<forall>u\<in>set (run pf rs). toLowerCase (email u) = email u"
    by (simp_all add: store_inv_def)
next
  assume h: "CreateUserSchema_safeParse pf body = Inr c \<and> email c \<in> set (map email st)"
  then have p: "CreateUserSchema_safeParse pf body = Inr c" by simp
  from h obtain x where "findUnique_email st (email c) = Some x"
    by (cases "findUnique_email st (email c)") (auto simp: findUnique_email_def find_None_iff)
  then show "UsersController_createUser pf st nid body =
              (Response HttpStatus_CREATED
                 \<lparr>success = False, message = ''User already exists'', payload = None,
                  errors = Some [\<lparr>error_field = ''email'',
                    error_message = ''User with this email already exists'',
                    receivedValue = Some (JStr (email c))\<rparr>]\<rparr>, st)"
    using p safeParse_create_object [OF p]
    by (simp add: UsersController_createUser_def UsersService_createUser_def)
next
  assume h: "UpdateUserSchema_safeParse pf body = Inr d \<and> new_email d = Some e
            \<and> i \<in> set (map user_id st) \<and> (\<exists>v\<in>set st. email v = e \<and> user_id v \<noteq> i)"
  then have p: "UpdateUserSchema_safeParse pf body = Inr d" and ne: "new_email d = Some e" by simp_all
  from UpdateUserSchema_email [OF p ne] obtain s where
    fmt: "email_format pf s" and e: "e = toLowerCase (trim s)" by blast
  from fmt blank have "trim s \<noteq> []" by simp
  then have nonempty: "e \<noteq> []" unfolding e by (simp add: toLowerCase_Nil_iff)
  from h obtain u where u: "findUnique_id st i = Some u"
    by (cases "findUnique_id st i") (auto simp: findUnique_id_def find_None_iff)
  from h have other: "findFirst_email_not_id st e i \<noteq> None"
    by (auto simp: findFirst_email_not_id_def find_None_iff)
  show "UsersController_updateUser pf st i body =
              (Raised (BadRequestException (Message ''Email already exists'')), st)"
    using p ne u other nonempty safeParse_update_object [OF p]
    by (simp add: UsersController_updateUser_def UsersService_updateUser_def)
qed

lemma example_email_format_not_blank:
  "\<forall>s. email_format example_platform s \<longrightarrow> trim s \<noteq> []"
proof (intro allI impI)
  fix s
  assume "email_format example_platform s"
  then have "CHR ''@'' \<in> set s"
    by (simp add: example_platform_def)
  moreover have "\<not> is_white_space CHR ''@''"
    by (simp add: is_white_space_def)
  ultimately show "trim s \<noteq> []"
    unfolding trim_empty_iff by blast
qed

theorem email_unique_witness:
  "run example_platform example_requests = [alice_row\<lparr>email := ''alice@x.com''\<rparr>, bob_row]
   \<and> distinct (map email (run example_platform example_requests))
   \<and> UsersController_createUser example_platform [alice_row] ''u2'' (alice_body ''a@X.COM'') =
       (Response 201
          \<lparr>success = False, message = ''User already exists'', payload = None,
           errors = Some [\<lparr>error_field = ''email'',
             error_message = ''User with this email already exists'',
             receivedValue = Some (JStr ''a@x.com'')\<rparr>]\<rparr>, [alice_row])
   \<and> UsersController_updateUser example_platform [alice_row, bob_row] ''u2''
         (JObj [(''email'', JStr ''A@X.com'')]) =
       (Raised (BadRequestException (Message ''Email already exists'')), [alice_row, bob_row])"
proof -
  note h = example_email_format_not_blank
  let ?c = "\<lparr>name = ''Alice'', ext = ''+1'', phone = ''5550100'', email = ''a@x.com'',
          dateOfBirth = Some 946684800000, password = ''secret1'',
          skills = [\<lparr>field = ''cooking'', tags = [''pasta'']\<rparr>]\<rparr>"
  let ?d = "\<lparr>new_name = None, new_ext = None, new_phone = None, new_email = Some ''a@x.com'',
          new_dateOfBirth = None, new_password = None, new_skills = None\<rparr>"
  have r: "run example_platform example_requests = [alice_row\<lparr>email := ''alice@x.com''\<rparr>, bob_row]"
    by code_simp
  have dist: "distinct (map email (run example_platform example_requests))"
    by (rule email_unique [OF h, THEN conjunct1])
  have pc: "CreateUserSchema_safeParse example_platform (alice_body ''a@X.COM'') = Inr ?c"
    by code_simp
  have mc: "email ?c \<in> set (map email [alice_row])"
    by (simp add: alice_row_def)
  have c: "HttpStatus_CREATED = 201" by (simp add: HttpStatus_CREATED_def)
  have dup: "UsersController_createUser example_platform [alice_row] ''u2'' (alice_body ''a@X.COM'') =
       (Response 201
          \<lparr>success = False, message = ''User already exists'', payload = None,
           errors = Some [\<lparr>error_field = ''email'',
             error_message = ''User with this email already exists'',
             receivedValue = Some (JStr ''a@x.com'')\<rparr>]\<rparr>, [alice_row])"
    using email_unique [OF h, where body = "alice_body ''a@X.COM''" and c = ?c
        and st = "[alice_row]" and nid = "''u2''", THEN conjunct2, THEN conjunct2, THEN conjunct1]
      pc mc
    unfolding c by simp
  have pu: "UpdateUserSchema_safeParse example_platform (JObj [(''email'', JStr ''A@X.com'')]) = Inr ?d"
    by code_simp
  have others: "''u2'' \<in> set (map user_id [alice_row, bob_row])
      \<and> (\<exists>v\<in>set [alice_row, bob_row]. email v = ''a@x.com'' \<and> user_id v \<noteq> ''u2'')"
    by (simp add: alice_row_def bob_row_def)
  have upd: "UsersController_updateUser example_platform [alice_row, bob_row] ''u2''
         (JObj [(''email'', JStr ''A@X.com'')]) =
       (Raised (BadRequestException (Message ''Email already exists'')), [alice_row, bob_row])"
    using email_unique [OF h, where body = "JObj [(''email'', JStr ''A@X.com'')]" and d = ?d
        and e = "''a@x.com''" and st = "[alice_row, bob_row]" and i = "''u2''",
        THEN conjunct2, THEN conjunct2, THEN conjunct2]
      pu others
    by simp
  show ?thesis by (intro conjI r dist dup upd)
qed

section \<open>The response of the create handler\<close>

text \<open>
  Claim C4, with the status code of the handler. The create handler always returns, and
  always with status 201, the code of its \<^verbatim>\<open>@HttpCode\<close>: on success with the envelope of the
  created user; when the schema finds issues, with \<^verbatim>\<open>success: false\<close>, the message
  \<^verbatim>\<open>Validation failed\<close> and one field error for each issue; when the email is taken, with
  \<^verbatim>\<open>success: false\<close>, the message \<^verbatim>\<open>User already exists\<close> and the field error for \<^verbatim>\<open>email\<close>. In the
  two failure cases the store is as before.
\<close>

theorem createUser_status:
  "(\<exists>e st'. UsersController_createUser pf st nid body = (Response HttpStatus_CREATED e, st'))
   \<and> HttpStatus_CREATED = 201
   \<and> (\<forall>u st'. UsersService_createUser pf st nid body = (Inr u, st') \<longrightarrow>
          UsersController_createUser pf st nid body =
            (Response HttpStatus_CREATED
               \<lparr>success = True, message = ''User created successfully'', payload = Some u,
                errors = None\<rparr>, st'))
   \<and> (\<forall>issues. \<not> (falsy body \<or> \<not> typeof_object body \<or> isArray body)
          \<and> CreateUserSchema_safeParse pf body = Inl issues \<longrightarrow>
          UsersController_createUser pf st nid body =
            (Response HttpStatus_CREATED
               \<lparr>success = False, message = ''Validation failed'', payload = None,
                errors = Some (map (format_error body) issues)\<rparr>, st))
   \<and> (\<forall>d. CreateUserSchema_safeParse pf body = Inr d \<and> email d \<in> set (map email st) \<longrightarrow>
          UsersController_createUser pf st nid body =
            (Response HttpStatus_CREATED
               \<lparr>success = False, message = ''User already exists'', payload = None,
                errors = Some [\<lparr>error_field = ''email'',
                  error_message = ''User with this email already exists'',
                  receivedValue = Some (JStr (email d))\<rparr>]\<rparr>, st))"
proof (intro conjI allI impI)
  show "\<exists>e st'. UsersController_createUser pf st nid body = (Response HttpStatus_CREATED e, st')"
    by (auto simp: UsersController_createUser_def split: prod.splits sum.splits exn.splits)
  show "HttpStatus_CREATED = 201"
    by (simp add: HttpStatus_CREATED_def)
next
  fix u st'
  assume "UsersService_createUser pf st nid body = (Inr u, st')"
  then show "UsersController_createUser pf st nid body =
            (Response HttpStatus_CREATED
               \<lparr>success = True, message = ''User created successfully'', payload = Some u,
                errors = None\<rparr>, st')"
    by (simp add: UsersController_createUser_def)
next
  fix issues
  assume "\<not> (falsy body \<or> \<not> typeof_object body \<or> isArray body)
          \<and> CreateUserSchema_safeParse pf body = Inl issues"
  then show "UsersController_createUser pf st nid body =
            (Response HttpStatus_CREATED
               \<lparr>success = False, message = ''Validation failed'', payload = None,
                errors = Some (map (format_error body) issues)\<rparr>, st)"
    by (simp add: UsersController_createUser_def UsersService_createUser_def)
next
  fix d
  assume h: "CreateUserSchema_safeParse pf body = Inr d \<and> email d \<in> set (map email st)"
  then have p: "CreateUserSchema_safeParse pf body = Inr d" by simp
  from h obtain x where "findUnique_email st (email d) = Some x"
    by (cases "findUnique_email st (email d)") (auto simp: findUnique_email_def find_None_iff)
  then show "UsersController_createUser pf st nid body =
              (Response HttpStatus_CREATED
                 \<lparr>success = False, message = ''User already exists'', payload = None,
                  errors = Some [\<lparr>error_field = ''email'',
                    error_message = ''User with this email already exists'',
                    receivedValue = Some (JStr (email d))\<rparr>]\<rparr>, st)"
    using p safeParse_create_object [OF p]
    by (simp add: UsersController_createUser_def UsersService_createUser_def)
qed

text \<open>
  A create request with an invalid email is answered with the failure envelope and the
  status 201, not 200.
\<close>

theorem createUser_failure_status_201:
  "UsersController_createUser example_platform [alice_row] ''u2'' (alice_body ''not-an-email'') =
     (Response 201
        \<lparr>success = False, message = ''Validation failed'', payload = None,
         errors = Some [\<lparr>error_field = ''email'',
           error_message = ''Please provide a valid email address'',
           receivedValue = Some (JStr ''not-an-email'')\<rparr>]\<rparr>, [alice_row])
   \<and> (201::nat) \<noteq> 200"
  by code_simp

theorem createUser_status_witness:
  "CreateUserSchema_safeParse example_platform (alice_body ''A@x.com'') =
     Inr \<lparr>name = ''Alice'', ext = ''+1'', phone = ''5550100'', email = ''a@x.com'',
          dateOfBirth = Some 946684800000, password = ''secret1'',
          skills = [\<lparr>field = ''cooking'', tags = [''pasta'']\<rparr>]\<rparr>
   \<and> ''a@x.com'' \<in> set (map email [alice_row])
   \<and> UsersController_createUser example_platform [alice_row] ''u2'' (alice_body ''A@x.com'') =
       (Response 201
          \<lparr>success = False, message = ''User already exists'', payload = None,
           errors = Some [\<lparr>error_field = ''email'',
             error_message = ''User with this email already exists'',
             receivedValue = Some (JStr ''a@x.com'')\<rparr>]\<rparr>, [alice_row])
   \<and> UsersController_createUser example_platform [] ''u1'' (alice_body ''A@x.com'') =
       (Response 201
          \<lparr>success = True, message = ''User created successfully'', payload = Some alice_row,
           errors = None\<rparr>, [alice_row])"
proof -
  let ?d = "\<lparr>name = ''Alice'', ext = ''+1'', phone = ''5550100'', email = ''a@x.com'',
          dateOfBirth = Some 946684800000, password = ''secret1'',
          skills = [\<lparr>field = ''cooking'', tags = [''pasta'']\<rparr>]\<rparr>"
  have p: "CreateUserSchema_safeParse example_platform (alice_body ''A@x.com'') = Inr ?d"
    by code_simp
  have m: "''a@x.com'' \<in> set (map email [alice_row])"
    by (simp add: alice_row_def)
  have s: "UsersService_createUser example_platform [] ''u1'' (alice_body ''A@x.com'') =
      (Inr alice_row, [alice_row])"
    by code_simp
  have c: "HttpStatus_CREATED = 201" by (simp add: HttpStatus_CREATED_def)
  note k = createUser_status [where pf = example_platform and body = "alice_body ''A@x.com''"]
  have dup: "UsersController_createUser example_platform [alice_row] ''u2'' (alice_body ''A@x.com'') =
       (Response 201
          \<lparr>success = False, message = ''User already exists'', payload = None,
           errors = Some [\<lparr>error_field = ''email'',
             error_message = ''User with this email already exists'',
             receivedValue = Some (JStr ''a@x.com'')\<rparr>]\<rparr>, [alice_row])"
    using k [where st = "[alice_row]" and nid = "''u2''", THEN conjunct2, THEN conjunct2,
        THEN conjunct2, THEN conjunct2, rule_format, of ?d] p m
    unfolding c by simp
  have ok: "UsersController_createUser example_platform [] ''u1'' (alice_body ''A@x.com'') =
       (Response 201
          \<lparr>success = True, message = ''User created successfully'', payload = Some alice_row,
           errors = None\<rparr>, [alice_row])"
    using k [where st = "[]" and nid = "''u1''", THEN conjunct2, THEN conjunct2,
        THEN conjunct1, rule_format, OF s]
    unfolding c .
  show ?thesis by (intro conjI p m dup ok)
qed

end
